theory Spec2Isabelle
  imports
    Complex_Main
    "HOL-Library.Char_ord"
    "HOL-Library.List_Lexorder"
    "HOL-Library.Product_Lexorder"
    "HOL-Library.Sublist"
    "HOL-Library.Multiset"
begin

section \<open>Data model of the sensor server\<close>

text \<open>
  The server (\<^verbatim>\<open>src/unnamed/part_000\<close>) keeps three PostgreSQL tables and
  broadcasts Socket.IO events. A table is a list of rows in insertion order.

  A number is the real it denotes. A JavaScript number that reaches a table is a finite
  double (every writer passes through \<open>toNumber\<close> or \<open>nextValue\<close>). A \<open>NUMERIC\<close> column
  holds the decimal that the driver wrote for the double, the shortest one that reads back
  as the same double; a row of the model holds the double, and every read of the column
  goes through \<open>to_double\<close> below as it goes through \<open>Number()\<close> in the code.

  A \<open>TIMESTAMPTZ\<close> column holds a number of microseconds; \<open>Date.now()\<close> and a \<open>Date\<close>
  are numbers of milliseconds.
\<close>

record sensor_data_row =
  sd_sensor_name :: string
  sd_value :: real
  sd_unit :: "string option"
  recorded_at :: int

record sensor_row =
  s_id :: nat
  s_name :: string
  s_value :: real
  s_unit :: "string option"
  updated_at :: int

record alert_row =
  a_sensor_name :: string
  a_value :: real
  a_status :: string
  triggered_at :: int

text \<open>
  The database: the three tables and the sequence behind \<open>sensors.id SERIAL\<close>.
  Column \<open>sensors.name\<close> is \<open>UNIQUE\<close>.
\<close>

record db =
  sensor_data :: "sensor_data_row list"
  sensors :: "sensor_row list"
  sensors_id_seq :: nat
  alerts :: "alert_row list"

definition init_db :: db where
  "init_db = \<lparr>sensor_data = [], sensors = [], sensors_id_seq = 0, alerts = []\<rparr>"

text \<open>The payload of \<open>sensor-alert\<close> and of each entry of \<open>all-alerts\<close>.\<close>

record alert_event =
  ev_sensor :: string
  ev_value :: real
  ev_status :: string
  ev_time :: int

datatype event =
    SensorUpdated sensor_row
  | SensorAlert alert_event
  | AlertsCleared
  | AllSensors "sensor_row list"
  | AllAlerts "alert_event list"

text \<open>
  What the environment decides during one handler run: the value of \<open>NOW()\<close> in each
  insert (microseconds), of \<open>Date.now()\<close> in the dedup gate and of \<open>new Date()\<close> in the
  alert event (milliseconds), and whether each \<open>pool.query\<close> throws.
\<close>

record runtime =
  now_reading :: int
  now_snapshot :: int
  date_now :: int
  now_alert :: int
  new_date :: int
  fail_insert_reading :: bool
  fail_upsert :: bool
  fail_last_alert :: bool
  fail_insert_alert :: bool

definition store_ok :: "runtime \<Rightarrow> bool" where
  "store_ok rt =
     (\<not> fail_insert_reading rt \<and> \<not> fail_upsert rt \<and> \<not> fail_last_alert rt \<and> \<not> fail_insert_alert rt)"

subsection \<open>Doubles\<close>

text \<open>
  The double nearest to a real, a tie going to the even significand (IEEE 754, round to
  nearest): \<open>binade x\<close> is the exponent \<open>e\<close> with \<open>2^e \<le> |x| < 2^(e+1)\<close>, the doubles of
  that binade are the multiples of \<open>2^(e-52)\<close>, and below \<open>2^(-1022)\<close> (the subnormal
  range) they are the multiples of \<open>2^(-1074)\<close>. The exponent is not bounded above here:
  \<open>double_of\<close> below turns a result of magnitude \<open>2^1024\<close> or more into an infinity. The
  reals have one zero.
\<close>

definition pow2 :: "int \<Rightarrow> real" where
  "pow2 e = (if 0 \<le> e then 2 ^ nat e else 1 / 2 ^ nat (- e))"

definition round_half_even :: "real \<Rightarrow> int" where
  "round_half_even y =
     (let f = \<lfloor>y\<rfloor>; r = y - of_int f
      in if r < 1 / 2 then f else if 1 / 2 < r then f + 1 else if even f then f else f + 1)"

definition binade :: "real \<Rightarrow> int" where
  "binade x = \<lfloor>log 2 \<bar>x\<bar>\<rfloor>"

definition to_double :: "real \<Rightarrow> real" where
  "to_double x =
     (if x = 0 then 0
      else (let q = pow2 (max (binade x) (- 1022) - 52)
            in of_int (round_half_even (x / q)) * q))"

subsection \<open>Request values\<close>

text \<open>
  A JavaScript number is a finite value, an infinity or NaN. A value of the JSON body is
  \<open>undefined\<close> (the key is missing), \<open>null\<close>, a boolean, a number, or anything else (a
  string, an array, an object), which the handler only ever passes to the built-in
  \<open>Number()\<close>: such a value is carried with the number that its text denotes
  (\<open>JOther NaN\<close> is \<open>"abc"\<close> or \<open>{}\<close>, \<open>JOther (Finite 30)\<close> is \<open>"30"\<close>,
  \<open>JNumber (Finite (3201 / 100))\<close> is the literal \<open>32.01\<close>).
\<close>

datatype jsnum = Finite real | PosInf | NegInf | NaN

datatype jsval = JUndefined | JNull | JBool bool | JNumber jsnum | JOther jsnum

text \<open>
  The JavaScript number that a decimal denotes: the nearest double, an infinity from
  \<open>2^1024\<close> on. The body parser (\<open>express.json()\<close>, line 86) reads a number literal so, and
  \<open>Number()\<close> a numeric string.
\<close>

definition double_of :: "real \<Rightarrow> jsnum" where
  "double_of x =
     (let d = to_double x in
      if pow2 1024 \<le> d then PosInf else if d \<le> - pow2 1024 then NegInf else Finite d)"

fun as_double :: "jsnum \<Rightarrow> jsnum" where
  "as_double (Finite x) = double_of x"
| "as_double PosInf = PosInf"
| "as_double NegInf = NegInf"
| "as_double NaN = NaN"

fun Number_js :: "jsval \<Rightarrow> jsnum" where
  "Number_js JUndefined = NaN"
| "Number_js JNull = Finite 0"
| "Number_js (JBool b) = Finite (if b then 1 else 0)"
| "Number_js (JNumber x) = as_double x"
| "Number_js (JOther x) = as_double x"

fun Number_isFinite :: "jsnum \<Rightarrow> bool" where
  "Number_isFinite (Finite x) = True"
| "Number_isFinite PosInf = False"
| "Number_isFinite NegInf = False"
| "Number_isFinite NaN = False"

text \<open>\<^verbatim>\<open>function toNumber(n) { const v = Number(n); return Number.isFinite(v) ? v : 0; }\<close>\<close>

fun finite_value :: "jsnum \<Rightarrow> real" where
  "finite_value (Finite x) = x"
| "finite_value other = 0"

definition toNumber :: "jsval \<Rightarrow> real" where
  "toNumber n = (if Number_isFinite (Number_js n) then finite_value (Number_js n) else 0)"

text \<open>
  The body of \<open>POST /api/reading\<close>. \<open>name\<close> and \<open>unit\<close> are strings when present.
\<close>

record request =
  req_name :: "string option"
  req_value :: jsval
  req_unit :: "string option"

datatype resp_body = RowBody sensor_row | ErrorBody string

datatype response = Response nat resp_body

fun status_code :: "response \<Rightarrow> nat" where
  "status_code (Response c b) = c"

section \<open>Thresholds and the evaluator\<close>

record threshold =
  thr_min :: real
  thr_max :: real

definition THRESHOLDS :: "(string \<times> threshold) list" where
  "THRESHOLDS =
     [(''Temperature Sensor 1'', \<lparr>thr_min = 18, thr_max = 28\<rparr>),
      (''Humidity Sensor 1'', \<lparr>thr_min = 30, thr_max = 60\<rparr>),
      (''CO2 Sensor 1'', \<lparr>thr_min = 0, thr_max = 800\<rparr>),
      (''Light Sensor 1'', \<lparr>thr_min = 100, thr_max = 700\<rparr>)]"

definition SENSOR_NAMES :: "string list" where
  "SENSOR_NAMES = map fst THRESHOLDS"

text \<open>
  \<open>withinAlertRange\<close> returns \<open>"high"\<close>, \<open>"low"\<close> or \<open>null\<close>; \<open>null\<close> (\<open>None\<close>) is the
  spec's \<open>normal\<close>. A name that is no key of \<open>THRESHOLDS\<close> gives \<open>null\<close>; so does a name
  of an inherited property such as \<open>constructor\<close>, whose \<open>min\<close> and \<open>max\<close> are \<open>undefined\<close>
  and make both comparisons false.
\<close>

definition withinAlertRange :: "string \<Rightarrow> real \<Rightarrow> string option" where
  "withinAlertRange name v =
     (case map_of THRESHOLDS name of
        None \<Rightarrow> None
      | Some thr \<Rightarrow>
          if v > thr_max thr then Some ''high''
          else if v < thr_min thr then Some ''low''
          else None)"

section \<open>Sensor category and the dedup gate\<close>

definition ALERT_COOLDOWN_MS :: int where
  "ALERT_COOLDOWN_MS = 120000"

definition ALERT_MIN_DELTA :: "(string \<times> real) list" where
  "ALERT_MIN_DELTA =
     [(''temperature'', 0.5), (''humidity'', 2), (''co2'', 50), (''light'', 30)]"

text \<open>\<open>String.prototype.toLowerCase\<close> on the ASCII letters; other bytes are kept.\<close>

definition lower_char :: "char \<Rightarrow> char" where
  "lower_char c =
     (case map_of (zip ''ABCDEFGHIJKLMNOPQRSTUVWXYZ'' ''abcdefghijklmnopqrstuvwxyz'') c of
        None \<Rightarrow> c
      | Some d \<Rightarrow> d)"

definition toLowerCase :: "string \<Rightarrow> string" where
  "toLowerCase s = map lower_char s"

text \<open>\<open>s.includes(t)\<close>: \<open>t\<close> starts at some position of \<open>s\<close>.\<close>

fun str_includes :: "string \<Rightarrow> string \<Rightarrow> bool" where
  "str_includes [] t = (t = [])"
| "str_includes (c # cs) t = (prefix t (c # cs) \<or> str_includes cs t)"

text \<open>\<open>kindFromName(n)\<close>; a \<open>null\<close> or missing name is \<open>None\<close> (\<open>n || ""\<close>).\<close>

definition kindFromName :: "string option \<Rightarrow> string" where
  "kindFromName n0 =
     (let n = toLowerCase (case n0 of None \<Rightarrow> [] | Some s \<Rightarrow> s) in
      if str_includes n ''temp'' then ''temperature''
      else if str_includes n ''humid'' then ''humidity''
      else if str_includes n ''co2'' then ''co2''
      else if str_includes n ''light'' then ''light''
      else ''other'')"

text \<open>\<open>ALERT_MIN_DELTA[k] ?? 1\<close> for \<open>k = kindFromName(name)\<close>.\<close>

definition minDelta :: "string \<Rightarrow> real" where
  "minDelta name =
     (case map_of ALERT_MIN_DELTA (kindFromName (Some name)) of
        None \<Rightarrow> 1
      | Some d \<Rightarrow> d)"

text \<open>
  \<open>SELECT ... FROM alerts WHERE sensor_name=$1 ORDER BY triggered_at DESC LIMIT 1\<close>.
  The order is that of the stamps, in microseconds. The sort is stable: among rows of
  equal stamp the model returns the one inserted first (PostgreSQL leaves the choice open).
\<close>

definition order_by_triggered_at_desc :: "alert_row list \<Rightarrow> alert_row list" where
  "order_by_triggered_at_desc rows = sort_key (\<lambda>a. - triggered_at a) rows"

definition last_alert :: "db \<Rightarrow> string \<Rightarrow> alert_row option" where
  "last_alert s name =
     (case order_by_triggered_at_desc (filter (\<lambda>a. a_sensor_name a = name) (alerts s)) of
        [] \<Rightarrow> None
      | a # _ \<Rightarrow> Some a)"

text \<open>
  The dedup gate (the value of \<open>shouldInsert\<close> in the handler and in \<open>simulateOnce\<close>;
  the two copies differ only in the name of the value variable).

  \<open>new Date(last.triggered_at).getTime()\<close> is the millisecond in which the stamp lies: the
  driver hands the column over as a \<open>Date\<close>. \<open>Number(val) - Number(last.value)\<close> subtracts
  doubles: \<open>val\<close> is one, \<open>Number(last.value)\<close> is the double nearest to the column's
  decimal, and their difference is rounded to the nearest double. \<open>Math.abs\<close> and the
  comparisons are exact. (A difference beyond the largest double is an infinity in the code
  and a real of at least \<open>2^1024\<close> here: neither is less than a \<open>minDelta\<close>.)
\<close>

definition shouldInsert :: "int \<Rightarrow> string \<Rightarrow> real \<Rightarrow> string \<Rightarrow> alert_row option \<Rightarrow> bool" where
  "shouldInsert now name val status lastRows =
     (case lastRows of
        None \<Rightarrow> True
      | Some last_row \<Rightarrow>
          (let lastTs = triggered_at last_row div 1000;
               sameStatus = (a_status last_row = status);
               smallDelta = (\<bar>to_double (val - to_double (a_value last_row))\<bar> < minDelta name);
               withinCooldown = (now - lastTs < ALERT_COOLDOWN_MS)
           in \<not> (sameStatus \<and> smallDelta \<and> withinCooldown)))"

section \<open>Store operations\<close>

definition insert_reading :: "db \<Rightarrow> string \<Rightarrow> real \<Rightarrow> string option \<Rightarrow> int \<Rightarrow> db" where
  "insert_reading s name v u t =
     s\<lparr>sensor_data := sensor_data s @
         [\<lparr>sd_sensor_name = name, sd_value = v, sd_unit = u, recorded_at = t\<rparr>]\<rparr>"

text \<open>
  \<open>INSERT INTO sensors ... ON CONFLICT (name) DO UPDATE SET value, unit, updated_at
  RETURNING *\<close>. The sequence advances whether or not the name exists.
\<close>

definition upsert_sensor :: "db \<Rightarrow> string \<Rightarrow> real \<Rightarrow> string option \<Rightarrow> int \<Rightarrow> db \<times> sensor_row" where
  "upsert_sensor s name v u t =
     (case find (\<lambda>r. s_name r = name) (sensors s) of
        None \<Rightarrow>
          (let row = \<lparr>s_id = Suc (sensors_id_seq s), s_name = name, s_value = v,
                      s_unit = u, updated_at = t\<rparr>
           in (s\<lparr>sensors := sensors s @ [row], sensors_id_seq := Suc (sensors_id_seq s)\<rparr>, row))
      | Some old \<Rightarrow>
          (let row = old\<lparr>s_value := v, s_unit := u, updated_at := t\<rparr>
           in (s\<lparr>sensors := map (\<lambda>r. if s_name r = name then row else r) (sensors s),
                 sensors_id_seq := Suc (sensors_id_seq s)\<rparr>, row)))"

definition insert_alert :: "db \<Rightarrow> string \<Rightarrow> real \<Rightarrow> string \<Rightarrow> int \<Rightarrow> db" where
  "insert_alert s name v st t =
     s\<lparr>alerts := alerts s @
         [\<lparr>a_sensor_name = name, a_value = v, a_status = st, triggered_at = t\<rparr>]\<rparr>"

text \<open>
  \<open>getLatestSensors\<close>: \<open>SELECT ... FROM sensors ORDER BY name ASC\<close>. The order of two
  names is that of the collation of the database, which the source does not fix. A
  collation is given by its key function \<open>key\<close> (\<open>strxfrm\<close>): names compare as their keys
  do, bytewise, and two names of equal keys compare bytewise themselves, as PostgreSQL
  does. The identity is the collation \<open>C\<close>, the byte order.
\<close>

definition getLatestSensors :: "(string \<Rightarrow> string) \<Rightarrow> db \<Rightarrow> sensor_row list" where
  "getLatestSensors key s = sort_key (\<lambda>r. (key (s_name r), s_name r)) (sensors s)"

section \<open>The ingestion handler\<close>

text \<open>
  The alert branch, lines 301-341 of the handler and 483-518 of \<open>simulateOnce\<close>: the
  evaluator, the lookup of the last alert, the gate, the insert and the \<open>sensor-alert\<close>
  event. \<open>Inl ()\<close> is a thrown query error; the store is then as it was before the branch.
\<close>

definition alert_branch :: "runtime \<Rightarrow> db \<Rightarrow> string \<Rightarrow> real \<Rightarrow> unit + (db \<times> event list)" where
  "alert_branch rt s name val =
     (case withinAlertRange name val of
        None \<Rightarrow> Inr (s, [])
      | Some status \<Rightarrow>
          if fail_last_alert rt then Inl ()
          else if shouldInsert (date_now rt) name val status (last_alert s name) then
            (if fail_insert_alert rt then Inl ()
             else Inr (insert_alert s name val status (now_alert rt),
                       [SensorAlert \<lparr>ev_sensor = name, ev_value = val, ev_status = status,
                                     ev_time = new_date rt\<rparr>]))
          else Inr (s, []))"

text \<open>
  The statements that the handler (lines 284-341) and \<open>simulateOnce\<close> (lines 468-518)
  share word for word, up to the names \<open>val\<close>/\<open>candidate\<close> and \<open>latest\<close>/\<open>row\<close>: insert the
  reading, upsert the snapshot, emit \<open>sensor-updated\<close>, run the alert branch. The result is
  the store, the events given to \<open>io.emit\<close> in order, and the upserted row when the
  statements ran to their end (\<open>None\<close> when a query threw and the enclosing \<open>catch\<close> took
  over). No query runs in a transaction, so what was written before the error stays.
\<close>

definition ingest :: "runtime \<Rightarrow> db \<Rightarrow> string \<Rightarrow> real \<Rightarrow> string option \<Rightarrow> db \<times> event list \<times> sensor_row option" where
  "ingest rt s name val u =
     (if fail_insert_reading rt then (s, [], None)
      else
        (let s1 = insert_reading s name val u (now_reading rt) in
         if fail_upsert rt then (s1, [], None)
         else
           (let (s2, latest) = upsert_sensor s1 name val u (now_snapshot rt) in
            case alert_branch rt s2 name val of
              Inl _ \<Rightarrow> (s2, [SensorUpdated latest], None)
            | Inr (s3, evs) \<Rightarrow> (s3, SensorUpdated latest # evs, Some latest))))"

definition internal_error :: response where
  "internal_error = Response 500 (ErrorBody ''Internal server error'')"

definition bad_request :: response where
  "bad_request = Response 400 (ErrorBody ''name and value required'')"

text \<open>\<open>unit || null\<close>: the empty string is falsy.\<close>

definition unit_or_null :: "string option \<Rightarrow> string option" where
  "unit_or_null u = (case u of None \<Rightarrow> None | Some x \<Rightarrow> if x = [] then None else Some x)"

text \<open>
  \<open>app.post("/api/reading", ...)\<close>: the store after the call, the events given to
  \<open>io.emit\<close> in order, and the response.
\<close>

definition post_reading :: "runtime \<Rightarrow> db \<Rightarrow> request \<Rightarrow> db \<times> event list \<times> response" where
  "post_reading rt s req =
     (case req_name req of
        None \<Rightarrow> (s, [], bad_request)
      | Some name \<Rightarrow>
          if name = [] \<or> req_value req = JUndefined then (s, [], bad_request)
          else
            (case ingest rt s name (toNumber (req_value req)) (unit_or_null (req_unit req)) of
               (s', evs, None) \<Rightarrow> (s', evs, internal_error)
             | (s', evs, Some latest) \<Rightarrow> (s', evs, Response 201 (RowBody latest))))"

section \<open>The synthetic generator\<close>

definition unitFor :: "string \<Rightarrow> string option" where
  "unitFor name =
     (if str_includes name ''Temperature'' then Some [CHR 0xC2, CHR 0xB0, CHR ''C'']
      else if str_includes name ''Humidity'' then Some ''%''
      else if str_includes name ''CO2'' then Some ''ppm''
      else if str_includes name ''Light'' then Some ''lux''
      else None)"

definition baseDrift :: "string \<Rightarrow> real" where
  "baseDrift name =
     (if str_includes name ''Temperature'' then 1.2
      else if str_includes name ''Humidity'' then 4
      else if str_includes name ''CO2'' then 60
      else if str_includes name ''Light'' then 80
      else 1)"

definition pSpike :: "string \<Rightarrow> real" where
  "pSpike name =
     (if str_includes name ''Temperature'' then 0.35
      else if str_includes name ''Humidity'' then 0.25
      else if str_includes name ''CO2'' then 0.25
      else if str_includes name ''Light'' then 0.25
      else 0.1)"

text \<open>
  The decimal that \<open>x.toFixed(2)\<close> prints, on the reals: the nearest multiple of 0.01, a
  tie going away from zero; from \<open>1e21\<close> on \<open>toFixed\<close> prints the number itself.
\<close>

definition toFixed2 :: "real \<Rightarrow> real" where
  "toFixed2 x =
     (if \<bar>x\<bar> \<ge> 10 ^ 21 then x
      else if x < 0 then - (of_int \<lfloor>(- x) * 100 + 1 / 2\<rfloor> / 100)
      else of_int \<lfloor>x * 100 + 1 / 2\<rfloor> / 100)"

text \<open>The four results of \<open>Math.random()\<close> that one call of \<open>nextValue\<close> may read, in order.\<close>

record draws =
  rnd_walk :: real
  rnd_spike :: real
  rnd_dir :: real
  rnd_mag :: real

definition clampMin :: "string \<Rightarrow> threshold \<Rightarrow> real" where
  "clampMin name thr = thr_min thr - baseDrift name * 6"

definition clampMax :: "string \<Rightarrow> threshold \<Rightarrow> real" where
  "clampMax name thr = thr_max thr + baseDrift name * 6"

text \<open>
  \<open>nextValue(name, last, thr)\<close> in two parts: the candidate after the clamp
  (\<open>Math.max(clampMin, Math.min(clampMax, candidate))\<close>), and its rounding
  (\<open>candidate.toFixed(2)\<close>). \<open>baseDrift\<close> and \<open>pSpike\<close> are the two constants that the
  function derives from the name. A draw is any real here; \<open>Math.random()\<close> gives one from
  0 up to, not including, 1. The arithmetic is that of the reals, and the result is the
  decimal that \<open>toFixed\<close> prints; the double that \<open>Number\<close> reads from it is taken where
  the value is used, in \<open>sim_candidate\<close>.
\<close>

definition clamped_candidate :: "draws \<Rightarrow> string \<Rightarrow> real \<Rightarrow> threshold \<Rightarrow> real" where
  "clamped_candidate rnd name last_value thr =
     (let walk = last_value + (rnd_walk rnd * 2 - 1) * baseDrift name;
          candidate =
            (if rnd_spike rnd < pSpike name then
               (if rnd_dir rnd < 0.5
                then thr_max thr + (rnd_mag rnd * baseDrift name + baseDrift name)
                else thr_min thr - (rnd_mag rnd * baseDrift name + baseDrift name))
             else walk)
      in max (clampMin name thr) (min (clampMax name thr) candidate))"

definition nextValue :: "draws \<Rightarrow> string \<Rightarrow> real \<Rightarrow> threshold \<Rightarrow> real" where
  "nextValue rnd name last_value thr = toFixed2 (clamped_candidate rnd name last_value thr)"

text \<open>
  What the environment decides during one turn of the loop of \<open>simulateOnce\<close>: as for the
  handler, and whether the \<open>SELECT value FROM sensors\<close> throws, and the draws.
\<close>

record sim_env =
  sim_runtime :: runtime
  fail_select_latest :: bool
  sim_draws :: draws

text \<open>
  One turn of the loop of \<open>simulateOnce\<close>, for the sensor \<open>name\<close> with bounds \<open>thr\<close>:
  first the value it feeds to the pipeline, the double \<open>candidate\<close>. \<open>latest\<close> is
  \<open>Number(rows[0].value)\<close>.
\<close>

definition sim_candidate :: "sim_env \<Rightarrow> db \<Rightarrow> string \<Rightarrow> threshold \<Rightarrow> real" where
  "sim_candidate env s name thr =
     (let midpoint = (thr_min thr + thr_max thr) / 2;
          latest =
            (if fail_select_latest env then midpoint
             else case find (\<lambda>r. s_name r = name) (sensors s) of
                    None \<Rightarrow> midpoint
                  | Some r \<Rightarrow> to_double (s_value r))
      in to_double (nextValue (sim_draws env) name latest thr))"

definition simulate_sensor :: "sim_env \<Rightarrow> db \<Rightarrow> string \<Rightarrow> threshold \<Rightarrow> db \<times> event list" where
  "simulate_sensor env s name thr =
     (case ingest (sim_runtime env) s name (sim_candidate env s name thr) (unitFor name) of
        (s', evs, r) \<Rightarrow> (s', evs))"

text \<open>
  \<open>for (const name of SENSOR_NAMES) { const thr = THRESHOLDS[name]; ... }\<close>. Every name
  of \<open>SENSOR_NAMES\<close> is a key of \<open>THRESHOLDS\<close>, so the first case is never taken.
\<close>

fun simulate_names :: "(string \<Rightarrow> sim_env) \<Rightarrow> db \<Rightarrow> string list \<Rightarrow> db \<times> event list" where
  "simulate_names env s [] = (s, [])"
| "simulate_names env s (name # names) =
     (case map_of THRESHOLDS name of
        None \<Rightarrow> (s, [])
      | Some thr \<Rightarrow>
          (let (s1, evs1) = simulate_sensor (env name) s name thr;
               (s2, evs2) = simulate_names env s1 names
           in (s2, evs1 @ evs2)))"

definition simulateOnce :: "(string \<Rightarrow> sim_env) \<Rightarrow> db \<Rightarrow> db \<times> event list" where
  "simulateOnce env s = simulate_names env s SENSOR_NAMES"

section \<open>Seeding, clearing and the connection handler\<close>

text \<open>The rows of \<open>seeds\<close> in \<open>seedSensorsIfEmpty\<close>; the first unit is the degree sign and C.\<close>

definition seeds :: "(string \<times> real \<times> string option) list" where
  "seeds =
     [(''Temperature Sensor 1'', 22, Some [CHR 0xC2, CHR 0xB0, CHR ''C'']),
      (''Humidity Sensor 1'', 45, Some ''%''),
      (''CO2 Sensor 1'', 400, Some ''ppm''),
      (''Light Sensor 1'', 500, Some ''lux'')]"

text \<open>
  The loop of \<open>seedSensorsIfEmpty\<close>. \<open>q\<close> counts the queries of the call, \<open>tm q\<close> is
  \<open>NOW()\<close> in query \<open>q\<close>, and \<open>fl = Some q\<close> says that query \<open>q\<close> throws (\<open>boot\<close> logs it).
\<close>

fun seed_loop :: "(nat \<Rightarrow> int) \<Rightarrow> nat option \<Rightarrow> nat \<Rightarrow> db \<Rightarrow> (string \<times> real \<times> string option) list \<Rightarrow> db" where
  "seed_loop tm fl q s [] = s"
| "seed_loop tm fl q s ((name, v, u) # rest) =
     (if fl = Some q then s
      else
        (let s1 = fst (upsert_sensor s name v u (tm q)) in
         if fl = Some (Suc q) then s1
         else seed_loop tm fl (Suc (Suc q)) (insert_reading s1 name v u (tm (Suc q))) rest))"

definition seedSensorsIfEmpty :: "(nat \<Rightarrow> int) \<Rightarrow> nat option \<Rightarrow> db \<Rightarrow> db" where
  "seedSensorsIfEmpty tm fl s =
     (if fl = Some 0 then s
      else if length (sensors s) > 0 then s
      else seed_loop tm fl 1 s seeds)"

text \<open>\<open>DELETE /api/alerts/clear\<close> once the caller is authorised.\<close>

definition alerts_clear :: "bool \<Rightarrow> db \<Rightarrow> db \<times> event list" where
  "alerts_clear fails s = (if fails then (s, []) else (s\<lparr>alerts := []\<rparr>, [AlertsCleared]))"

text \<open>
  An entry of \<open>all-alerts\<close>: \<open>{sensor: a.sensor_name, value: Number(a.value), status:
  a.status, time: new Date(a.triggered_at)}\<close>.
\<close>

definition alert_payload :: "alert_row \<Rightarrow> alert_event" where
  "alert_payload a =
     \<lparr>ev_sensor = a_sensor_name a, ev_value = to_double (a_value a), ev_status = a_status a,
      ev_time = triggered_at a div 1000\<rparr>"

text \<open>
  What the environment decides during one run of the connection handler: the collation of
  the database, and whether each of the two queries throws.
\<close>

record conn_env =
  collation_key :: "string \<Rightarrow> string"
  fail_all_sensors :: bool
  fail_all_alerts :: bool

text \<open>
  \<open>io.on("connection", ...)\<close>: the events given to \<open>socket.emit\<close>, in order. A query that
  throws ends the handler (the error is logged).
\<close>

definition on_connection :: "conn_env \<Rightarrow> db \<Rightarrow> event list" where
  "on_connection ce s =
     (if fail_all_sensors ce then []
      else AllSensors (getLatestSensors (collation_key ce) s) #
        (if fail_all_alerts ce then []
         else [AllAlerts (map alert_payload (take 50 (order_by_triggered_at_desc (alerts s))))]))"

section \<open>The server as a transition system\<close>

text \<open>
  The state of the server: the database, and for every connected socket the events it has
  been sent, in order. \<open>io.emit\<close> sends to every connected socket. Handlers run one after
  the other; a socket id is used for one connection only, so connecting an id that is
  connected changes nothing.
\<close>

record system =
  sys_db :: db
  inbox :: "nat \<Rightarrow> event list option"

definition init_system :: system where
  "init_system = \<lparr>sys_db = init_db, inbox = (\<lambda>k. None)\<rparr>"

definition io_emit :: "event list \<Rightarrow> (nat \<Rightarrow> event list option) \<Rightarrow> (nat \<Rightarrow> event list option)" where
  "io_emit evs ib = (\<lambda>k. case ib k of None \<Rightarrow> None | Some sent \<Rightarrow> Some (sent @ evs))"

datatype op =
    Post runtime request
  | Simulate "string \<Rightarrow> sim_env"
  | Clear bool
  | Seed "nat \<Rightarrow> int" "nat option"
  | Connect nat conn_env
  | Disconnect nat

fun step :: "system \<Rightarrow> op \<Rightarrow> system" where
  "step y (Post rt req) =
     (case post_reading rt (sys_db y) req of
        (d, evs, r) \<Rightarrow> \<lparr>sys_db = d, inbox = io_emit evs (inbox y)\<rparr>)"
| "step y (Simulate env) =
     (case simulateOnce env (sys_db y) of
        (d, evs) \<Rightarrow> \<lparr>sys_db = d, inbox = io_emit evs (inbox y)\<rparr>)"
| "step y (Clear fails) =
     (case alerts_clear fails (sys_db y) of
        (d, evs) \<Rightarrow> \<lparr>sys_db = d, inbox = io_emit evs (inbox y)\<rparr>)"
| "step y (Seed tm fl) = y\<lparr>sys_db := seedSensorsIfEmpty tm fl (sys_db y)\<rparr>"
| "step y (Connect k ce) =
     (case inbox y k of
        Some sent \<Rightarrow> y
      | None \<Rightarrow> y\<lparr>inbox := (inbox y)(k := Some (on_connection ce (sys_db y)))\<rparr>)"
| "step y (Disconnect k) = y\<lparr>inbox := (inbox y)(k := None)\<rparr>"

definition run :: "system \<Rightarrow> op list \<Rightarrow> system" where
  "run y ops = foldl step y ops"

text \<open>The events after the replay: everything but \<open>all-sensors\<close> and \<open>all-alerts\<close>.\<close>

fun is_delta :: "event \<Rightarrow> bool" where
  "is_delta (AllSensors rows) = False"
| "is_delta (AllAlerts rows) = False"
| "is_delta e = True"

fun touches_socket :: "nat \<Rightarrow> op \<Rightarrow> bool" where
  "touches_socket k (Connect j ce) = (j = k)"
| "touches_socket k (Disconnect j) = (j = k)"
| "touches_socket k other = False"

section \<open>Auxiliary notions\<close>

text \<open>The store and the row that the two writes of \<open>ingest\<close> leave when both succeed.\<close>

definition written :: "runtime \<Rightarrow> db \<Rightarrow> string \<Rightarrow> real \<Rightarrow> string option \<Rightarrow> db \<times> sensor_row" where
  "written rt s name val u =
     upsert_sensor (insert_reading s name val u (now_reading rt)) name val u (now_snapshot rt)"

text \<open>
  Names in \<open>sensors\<close> are unique, and every alert row has the status low or high.
\<close>

definition db_inv :: "db \<Rightarrow> bool" where
  "db_inv s \<longleftrightarrow>
     distinct (map s_name (sensors s)) \<and>
     (\<forall>a \<in> set (alerts s). a_status a = ''low'' \<or> a_status a = ''high'')"

text \<open>
  In an event list, every \<open>sensor-alert\<close> comes right after the \<open>sensor-updated\<close> of
  the same sensor and value.
\<close>

definition update_precedes_alert :: "event list \<Rightarrow> bool" where
  "update_precedes_alert evs \<longleftrightarrow>
     (\<forall>i < length evs. \<forall>p. evs ! i = SensorAlert p \<longrightarrow>
        0 < i \<and>
        (\<exists>row. evs ! (i - 1) = SensorUpdated row \<and>
           s_name row = ev_sensor p \<and> s_value row = ev_value p))"

section \<open>Concrete inputs\<close>

text \<open>
  A run in which every clock reads \<open>t\<close> milliseconds (\<open>NOW()\<close> is \<open>1000 t\<close>
  microseconds) and no query throws.
\<close>

definition runtime_at :: "int \<Rightarrow> runtime" where
  "runtime_at t =
     \<lparr>now_reading = 1000 * t, now_snapshot = 1000 * t, date_now = t, now_alert = 1000 * t,
      new_date = t,
      fail_insert_reading = False, fail_upsert = False, fail_last_alert = False,
      fail_insert_alert = False\<rparr>"

definition temp_request :: "jsval \<Rightarrow> request" where
  "temp_request v =
     \<lparr>req_name = Some ''Temperature Sensor 1'', req_value = v, req_unit = Some ''C''\<rparr>"

definition temp_row :: "real \<Rightarrow> int \<Rightarrow> sensor_row" where
  "temp_row v t =
     \<lparr>s_id = 1, s_name = ''Temperature Sensor 1'', s_value = v, s_unit = Some ''C'',
      updated_at = t\<rparr>"

definition temp_alert :: "real \<Rightarrow> string \<Rightarrow> int \<Rightarrow> alert_row" where
  "temp_alert v st t =
     \<lparr>a_sensor_name = ''Temperature Sensor 1'', a_value = v, a_status = st, triggered_at = t\<rparr>"

text \<open>The store after the value 30 was posted at time 1000 to the empty store.\<close>

definition db_after_30 :: db where
  "db_after_30 =
     \<lparr>sensor_data =
        [\<lparr>sd_sensor_name = ''Temperature Sensor 1'', sd_value = 30, sd_unit = Some ''C'',
          recorded_at = 1000000\<rparr>],
      sensors = [temp_row 30 1000000],
      sensors_id_seq = 1,
      alerts = [temp_alert 30 ''high'' 1000000]\<rparr>"

text \<open>
  A simulator turn at time \<open>t\<close> in which the \<open>Math.random()\<close> that decides the spike
  gives \<open>p\<close> and every other one gives \<open>x\<close>.
\<close>

definition sim_env_at :: "int \<Rightarrow> real \<Rightarrow> real \<Rightarrow> sim_env" where
  "sim_env_at t p x =
     \<lparr>sim_runtime = runtime_at t, fail_select_latest = False,
      sim_draws = \<lparr>rnd_walk = x, rnd_spike = p, rnd_dir = x, rnd_mag = x\<rparr>\<rparr>"

definition boiler_request :: "jsval \<Rightarrow> request" where
  "boiler_request v = \<lparr>req_name = Some ''Boiler'', req_value = v, req_unit = None\<rparr>"

definition named_request :: "string \<Rightarrow> jsval \<Rightarrow> request" where
  "named_request name v = \<lparr>req_name = Some name, req_value = v, req_unit = None\<rparr>"

text \<open>
  A store with a history of alerts, in the order of their insertion: two of the
  temperature sensor and a later one of the humidity sensor. The second one was raised
  for the posted value 31.51, 5000 ms and 999 microseconds after the epoch.
\<close>

definition db_history :: db where
  "db_history =
     \<lparr>sensor_data = [],
      sensors = [temp_row (to_double (3151 / 100)) 5000999],
      sensors_id_seq = 1,
      alerts =
        [temp_alert 35 ''high'' 1000000,
         temp_alert (to_double (3151 / 100)) ''high'' 5000999,
         \<lparr>a_sensor_name = ''Humidity Sensor 1'', a_value = 20, a_status = ''low'',
           triggered_at = 9000000\<rparr>]\<rparr>"

text \<open>A connection whose two queries succeed, in a database of the given collation.\<close>

definition conn_ok :: "(string \<Rightarrow> string) \<Rightarrow> conn_env" where
  "conn_ok key = \<lparr>collation_key = key, fail_all_sensors = False, fail_all_alerts = False\<rparr>"

text \<open>
  The key of a collation that compares letters without their case first and then puts a
  lower-case letter before its capital: \<open>a\<close>, \<open>b\<close>, \<open>B\<close>, where the byte order (the key
  \<open>\<lambda>s. s\<close>) gives \<open>B\<close>, \<open>a\<close>, \<open>b\<close>.
\<close>

definition caseless_key :: "string \<Rightarrow> string" where
  "caseless_key s = toLowerCase s @ map (\<lambda>c. if lower_char c = c then CHR 0x01 else CHR 0x02) s"

text \<open>
  Four calls of the handler: an alert of the temperature sensor, stamped 1000 ms and 999
  microseconds after the epoch, the sensors \<open>b\<close> and \<open>B\<close>, which have no bounds, and an
  alert of the humidity sensor.
\<close>

definition replay_ops :: "op list" where
  "replay_ops =
     [Post ((runtime_at 1000)\<lparr>now_alert := 1000999\<rparr>)
        (temp_request (JNumber (Finite (3201 / 100)))),
      Post (runtime_at 2000) (named_request ''b'' (JNumber (Finite 1))),
      Post (runtime_at 3000) (named_request ''B'' (JNumber (Finite 2))),
      Post (runtime_at 4000) (named_request ''Humidity Sensor 1'' (JNumber (Finite 20)))]"

section \<open>Rounding to the nearest double\<close>

lemma pow2_powr: "pow2 e = 2 powr (of_int e)"
  by (simp add: pow2_def powr_real_of_int inverse_eq_divide)

lemma pow2_pos [simp]: "0 < pow2 e"
  by (simp add: pow2_powr)

lemma pow2_nonzero [simp]: "pow2 e \<noteq> 0"
  using pow2_pos [of e] by linarith

lemma pow2_abs [simp]: "\<bar>pow2 e\<bar> = pow2 e"
  using pow2_pos [of e] by linarith

lemma pow2_nonneg [simp]: "0 \<le> pow2 e"
  using pow2_pos [of e] by linarith

lemma pow2_add: "pow2 (a + b) = pow2 a * pow2 b"
  by (simp add: pow2_powr powr_add)

lemma pow2_plus_nat: "pow2 (k + int n) = 2 ^ n * pow2 k"
  using pow2_add [of "int n" k] by (simp add: pow2_def add.commute)

lemma pow2_strict_mono: "a < b \<Longrightarrow> pow2 a < pow2 b"
  by (simp add: pow2_powr)

lemma pow2_mono: "a \<le> b \<Longrightarrow> pow2 a \<le> pow2 b"
  by (simp add: pow2_powr)

lemma pow2_less_imp: "pow2 a < pow2 b \<Longrightarrow> a < b"
  by (simp add: pow2_powr)

lemma binade_eq:
  assumes "x \<noteq> 0" "pow2 e \<le> \<bar>x\<bar>" "\<bar>x\<bar> < pow2 (e + 1)"
  shows "binade x = e"
  using assms unfolding binade_def pow2_powr
  by (subst floor_log_eq_powr_iff) simp_all

lemma binade_bounds:
  assumes "x \<noteq> 0"
  shows "pow2 (binade x) \<le> \<bar>x\<bar> \<and> \<bar>x\<bar> < pow2 (binade x + 1)"
proof -
  have "\<lfloor>log 2 \<bar>x\<bar>\<rfloor> = binade x"
    by (simp add: binade_def)
  then show ?thesis
    using assms unfolding pow2_powr
    by (subst (asm) floor_log_eq_powr_iff) simp_all
qed

lemma round_half_even_bounds:
  "\<lfloor>y\<rfloor> \<le> round_half_even y \<and> round_half_even y \<le> \<lfloor>y\<rfloor> + 1"
  by (simp add: round_half_even_def Let_def)

lemma round_half_even_of_int [simp]: "round_half_even (of_int n) = n"
  by (simp add: round_half_even_def)

lemma round_half_even_ge:
  assumes "of_int n \<le> y"
  shows "n \<le> round_half_even y"
proof -
  from assms have "n \<le> \<lfloor>y\<rfloor>" by (simp add: le_floor_iff)
  with round_half_even_bounds [of y] show ?thesis by linarith
qed

lemma round_half_even_le:
  assumes "y \<le> of_int n"
  shows "round_half_even y \<le> n"
proof (cases "y = of_int n")
  case True
  then show ?thesis by simp
next
  case False
  with assms have "y < of_int n" by simp
  then have "\<lfloor>y\<rfloor> < n"
    by (simp add: floor_less_iff)
  with round_half_even_bounds [of y] show ?thesis by linarith
qed

lemma to_double_eval:
  assumes "x \<noteq> 0" "pow2 e \<le> \<bar>x\<bar>" "\<bar>x\<bar> < pow2 (e + 1)"
  shows "to_double x =
     of_int (round_half_even (x / pow2 (max e (- 1022) - 52))) * pow2 (max e (- 1022) - 52)"
  using assms binade_eq [OF assms] by (simp add: to_double_def Let_def)

lemma to_double_exact:
  assumes "x / pow2 (max (binade x) (- 1022) - 52) = of_int k"
  shows "to_double x = x"
proof (cases "x = 0")
  case True
  then show ?thesis by (simp add: to_double_def)
next
  case False
  let ?q = "pow2 (max (binade x) (- 1022) - 52)"
  have "to_double x = of_int (round_half_even (x / ?q)) * ?q"
    using False by (simp add: to_double_def Let_def)
  also have "\<dots> = (x / ?q) * ?q"
    unfolding assms by simp
  also have "\<dots> = x"
  proof -
    have "?q \<noteq> 0"
      using pow2_pos [of "max (binade x) (- 1022) - 52"] by linarith
    then show ?thesis by simp
  qed
  finally show ?thesis .
qed

text \<open>Rounding does not cross a double.\<close>

lemma to_double_ge:
  assumes em: "- 1022 \<le> em" and m: "m = of_int M * pow2 (em - 52)"
    and lo: "pow2 em \<le> m" and hi: "m < pow2 (em + 1)" and z: "m \<le> z"
  shows "m \<le> to_double z"
proof -
  have mpos: "0 < m" using lo pow2_pos [of em] by linarith
  with z have zpos: "0 < z" and znz: "z \<noteq> 0" by linarith+
  define e where "e = binade z"
  have b: "pow2 e \<le> z" "z < pow2 (e + 1)"
    using binade_bounds [OF znz] zpos by (simp_all add: e_def)
  have "pow2 em < pow2 (e + 1)" using lo z b by linarith
  then have ee: "em \<le> e" using pow2_less_imp by fastforce
  then have mx: "max e (- 1022) = e" using em by simp
  define q where "q = pow2 (e - 52)"
  have qpos: "0 < q" by (simp add: q_def)
  have td: "to_double z = of_int (round_half_even (z / q)) * q"
    using znz mx by (simp add: to_double_def Let_def e_def q_def)
  show ?thesis
  proof (cases "e = em")
    case True
    then have "m = of_int M * q" using m by (simp add: q_def)
    then have "of_int M \<le> z / q" using z qpos by (simp add: field_simps)
    then have "M \<le> round_half_even (z / q)" by (rule round_half_even_ge)
    then have "of_int M * q \<le> of_int (round_half_even (z / q)) * q"
      using qpos by simp
    then show ?thesis using td \<open>m = of_int M * q\<close> by simp
  next
    case False
    with ee have "em + 1 \<le> e" by simp
    then have "pow2 (em + 1) \<le> pow2 e" by (rule pow2_mono)
    moreover have pe: "pow2 e = of_int (2 ^ 52) * q"
      using pow2_add [of 52 "e - 52"] by (simp add: q_def pow2_def)
    have "of_int (2 ^ 52) \<le> z / q"
      using b(1) qpos unfolding pe by (simp add: field_simps)
    then have "2 ^ 52 \<le> round_half_even (z / q)" by (rule round_half_even_ge)
    then have "of_int (2 ^ 52) * q \<le> of_int (round_half_even (z / q)) * q"
      using qpos by (simp only: of_int_le_iff mult_le_cancel_right_pos)
    ultimately show ?thesis using td pe hi by linarith
  qed
qed

lemma to_double_le_neg:
  assumes em: "- 1022 \<le> em" and m: "m = of_int M * pow2 (em - 52)"
    and lo: "pow2 em \<le> m" and hi: "m < pow2 (em + 1)" and z: "z \<le> - m"
  shows "to_double z \<le> - m"
proof -
  have mpos: "0 < m" using lo pow2_pos [of em] by linarith
  with z have zneg: "z < 0" and znz: "z \<noteq> 0" by linarith+
  define e where "e = binade z"
  have b: "pow2 e \<le> - z" "- z < pow2 (e + 1)"
    using binade_bounds [OF znz] zneg by (simp_all add: e_def)
  have "pow2 em < pow2 (e + 1)" using lo z b by linarith
  then have ee: "em \<le> e" using pow2_less_imp by fastforce
  then have mx: "max e (- 1022) = e" using em by simp
  define q where "q = pow2 (e - 52)"
  have qpos: "0 < q" by (simp add: q_def)
  have td: "to_double z = of_int (round_half_even (z / q)) * q"
    using znz mx by (simp add: to_double_def Let_def e_def q_def)
  show ?thesis
  proof (cases "e = em")
    case True
    then have mq: "m = of_int M * q" using m by (simp add: q_def)
    then have "z / q \<le> of_int (- M)" using z qpos by (simp add: field_simps)
    then have "round_half_even (z / q) \<le> - M" by (rule round_half_even_le)
    then have "of_int (round_half_even (z / q)) * q \<le> of_int (- M) * q"
      using qpos by (simp only: of_int_le_iff mult_le_cancel_right_pos)
    then show ?thesis using td mq by simp
  next
    case False
    with ee have "em + 1 \<le> e" by simp
    then have "pow2 (em + 1) \<le> pow2 e" by (rule pow2_mono)
    moreover have pe: "pow2 e = of_int (2 ^ 52) * q"
      using pow2_add [of 52 "e - 52"] by (simp add: q_def pow2_def)
    have "z / q \<le> of_int (- (2 ^ 52))"
      using b(1) qpos unfolding pe by (simp add: field_simps)
    then have "round_half_even (z / q) \<le> - (2 ^ 52)" by (rule round_half_even_le)
    then have "of_int (round_half_even (z / q)) * q \<le> of_int (- (2 ^ 52)) * q"
      using qpos by (simp only: of_int_le_iff mult_le_cancel_right_pos)
    ultimately show ?thesis using td pe hi by simp
  qed
qed

lemma to_double_abs_ge:
  assumes "- 1022 \<le> em" "m = of_int M * pow2 (em - 52)" "pow2 em \<le> m" "m < pow2 (em + 1)"
    and "m \<le> \<bar>z\<bar>"
  shows "m \<le> \<bar>to_double z\<bar>"
proof (cases "0 \<le> z")
  case True
  with assms(5) have "m \<le> z" by simp
  from to_double_ge [OF assms(1-4) this] show ?thesis by linarith
next
  case False
  with assms(5) have "z \<le> - m" by simp
  from to_double_le_neg [OF assms(1-4) this] show ?thesis by linarith
qed

lemma to_double_of_int:
  assumes "\<bar>n\<bar> < 2 ^ 53"
  shows "to_double (of_int n) = of_int n"
proof (cases "n = 0")
  case True
  then show ?thesis by (simp add: to_double_def)
next
  case False
  let ?x = "of_int n :: real"
  define e where "e = binade ?x"
  have nz: "?x \<noteq> 0" using False by simp
  have b: "pow2 e \<le> \<bar>?x\<bar>" "\<bar>?x\<bar> < pow2 (e + 1)"
    using binade_bounds [OF nz] by (simp_all add: e_def)
  have "1 \<le> \<bar>n\<bar>" using False by simp
  then have "(1::real) \<le> \<bar>?x\<bar>"
    by (metis of_int_1 of_int_abs of_int_le_iff)
  then have "pow2 0 < pow2 (e + 1)" using b by (simp add: pow2_def)
  then have e0: "0 \<le> e" using pow2_less_imp by fastforce
  have "\<bar>?x\<bar> < pow2 53"
    using assms by (metis of_int_abs of_int_less_iff of_int_numeral of_int_power pow2_def
        nat_numeral zero_le_numeral)
  then have "pow2 e < pow2 53" using b by linarith
  then have e52: "e \<le> 52" using pow2_less_imp by fastforce
  have mx: "max e (- 1022) = e" using e0 by simp
  have q: "pow2 (e - 52) = 1 / 2 ^ nat (52 - e)"
    using e52 by (cases "e = 52") (simp_all add: pow2_def)
  have "?x / pow2 (max (binade ?x) (- 1022) - 52) = of_int (n * 2 ^ nat (52 - e))"
    using mx by (simp add: e_def [symmetric] q)
  then show ?thesis by (rule to_double_exact)
qed

lemma to_double_numeral [simp]:
  "numeral k < (9007199254740992::int) \<Longrightarrow> to_double (numeral k) = numeral k"
  using to_double_of_int [of "numeral k"] by simp

lemma to_double_0 [simp]: "to_double 0 = 0"
  by (simp add: to_double_def)

lemma to_double_grid:
  assumes "max (binade (of_int N * pow2 k)) (- 1022) - 52 \<le> k"
  shows "to_double (of_int N * pow2 k) = of_int N * pow2 k"
proof -
  define k' where "k' = max (binade (of_int N * pow2 k)) (- 1022) - 52"
  have le: "k' \<le> k" using assms by (simp add: k'_def)
  have "pow2 k = pow2 ((k - k') + k')" by simp
  also have "\<dots> = pow2 (k - k') * pow2 k'" by (rule pow2_add)
  also have "pow2 (k - k') = of_int (2 ^ nat (k - k'))"
    using le by (simp add: pow2_def)
  finally have pk: "pow2 k = of_int (2 ^ nat (k - k')) * pow2 k'" .
  have "pow2 k' \<noteq> 0"
    using pow2_pos [of k'] by linarith
  then have "of_int N * pow2 k / pow2 k' = of_int (N * 2 ^ nat (k - k'))"
    unfolding pk by simp
  then show ?thesis
    unfolding k'_def by (rule to_double_exact)
qed

lemma to_double_idem: "to_double (to_double x) = to_double x"
proof (cases "x = 0")
  case True
  then show ?thesis by (simp add: to_double_def)
next
  case False
  define e where "e = binade x"
  define k where "k = max e (- 1022) - 52"
  define N where "N = round_half_even (x / pow2 k)"
  have td: "to_double x = of_int N * pow2 k"
    using False by (simp add: to_double_def Let_def e_def k_def N_def)
  have b: "\<bar>x\<bar> < pow2 (e + 1)"
    using binade_bounds [OF False] by (simp add: e_def)
  have "pow2 (e + 1) \<le> pow2 (k + 53)"
    by (rule pow2_mono) (simp add: k_def)
  also have "pow2 (k + 53) = pow2 k * of_int (2 ^ 53)"
    using pow2_add [of k 53] by (simp add: pow2_def)
  finally have ub: "\<bar>x\<bar> < pow2 k * of_int (2 ^ 53)"
    using b by linarith
  have qpos: "0 < pow2 k" by simp
  have xq: "x / pow2 k \<le> of_int (2 ^ 53)" "of_int (- (2 ^ 53)) \<le> x / pow2 k"
    using ub qpos by (simp_all add: field_simps abs_less_iff)
  have N53: "N \<le> 2 ^ 53" "- (2 ^ 53) \<le> N"
    unfolding N_def
    using round_half_even_le [OF xq(1)] round_half_even_ge [OF xq(2)] by simp_all
  show ?thesis
  proof (cases "N = 0")
    case True
    with td have z: "to_double x = 0" by simp
    show ?thesis unfolding z by (simp add: to_double_def)
  next
    case nz: False
    let ?r = "of_int N * pow2 k :: real"
    have rnz: "?r \<noteq> 0" using nz qpos by simp
    have absN: "\<bar>of_int N :: real\<bar> \<le> of_int (2 ^ 53)"
      using N53 by (simp only: abs_le_iff of_int_le_iff flip: of_int_minus) simp
    have "\<bar>?r\<bar> = \<bar>of_int N :: real\<bar> * pow2 k"
      by (simp add: abs_mult)
    also have "\<dots> \<le> of_int (2 ^ 53) * pow2 k"
      by (rule mult_right_mono [OF absN]) simp
    also have "\<dots> = pow2 (k + 53)"
      using pow2_add [of k 53] by (simp add: pow2_def)
    finally have rub: "\<bar>?r\<bar> \<le> pow2 (k + 53)" .
    have "pow2 (binade ?r) \<le> \<bar>?r\<bar>"
      using binade_bounds [OF rnz] by simp
    moreover have "pow2 (k + 53) < pow2 (k + 53 + 1)"
      by (rule pow2_strict_mono) simp
    ultimately have "pow2 (binade ?r) < pow2 (k + 53 + 1)"
      using rub by linarith
    then have bl: "binade ?r \<le> k + 53"
      using pow2_less_imp by fastforce
    show ?thesis
    proof (cases "binade ?r = k + 53")
      case True
      then have "pow2 (k + 53) \<le> \<bar>?r\<bar>"
        using binade_bounds [OF rnz] by simp
      with rub have "\<bar>?r\<bar> = pow2 (k + 53)" by linarith
      then have r2: "?r = pow2 (k + 53) \<or> ?r = - pow2 (k + 53)"
        by linarith
      have k1: "- 1022 \<le> k + 53" by (simp add: k_def)
      have "pow2 (k + 53) = of_int (2 ^ 52) * pow2 (k + 1)"
        using pow2_plus_nat [of "k + 1" 52] by (simp add: add.commute)
      then have "?r = of_int (2 ^ 52) * pow2 (k + 1) \<or> ?r = of_int (- (2 ^ 52)) * pow2 (k + 1)"
        using r2 by auto
      moreover have "max (binade ?r) (- 1022) - 52 \<le> k + 1"
        using True k1 by simp
      ultimately have "to_double ?r = ?r"
        using to_double_grid [of "2 ^ 52" "k + 1"] to_double_grid [of "- (2 ^ 52)" "k + 1"]
        by metis
      then show ?thesis by (simp add: td)
    next
      case False
      with bl have "binade ?r \<le> k + 52" by simp
      then have "max (binade ?r) (- 1022) - 52 \<le> k"
        by (simp add: k_def)
      then have "to_double ?r = ?r" by (rule to_double_grid)
      then show ?thesis by (simp add: td)
    qed
  qed
qed

lemma to_double_neg_numeral [simp]:
  "numeral k < (9007199254740992::int) \<Longrightarrow> to_double (- numeral k) = - numeral k"
  using to_double_of_int [of "- numeral k"] by simp

lemma to_double_1 [simp]: "to_double 1 = 1"
  using to_double_of_int [of 1] by simp

lemma pow2_53: "pow2 53 = 9007199254740992"
  by (simp add: pow2_def)

lemma double_of_finite [simp]:
  assumes "\<bar>to_double x\<bar> < 9007199254740992"
  shows "double_of x = Finite (to_double x)"
proof -
  have "pow2 53 \<le> pow2 1024"
    by (rule pow2_mono) simp
  with assms have "\<bar>to_double x\<bar> < pow2 1024"
    by (simp add: pow2_53)
  then have "\<not> pow2 1024 \<le> to_double x" "\<not> to_double x \<le> - pow2 1024"
    by linarith+
  then show ?thesis
    by (simp add: double_of_def Let_def)
qed

text \<open>The doubles of some decimals, and the differences that the gate computes from them.\<close>

lemma to_double_3151: "to_double (3151 / 100) = 8869276516152771 / 281474976710656"
  by (subst to_double_eval [where e = 4]) (simp_all add: pow2_def round_half_even_def Let_def)

lemma to_double_3201: "to_double (3201 / 100) = 4505007002254049 / 140737488355328"
  by (subst to_double_eval [where e = 5]) (simp_all add: pow2_def round_half_even_def Let_def)

lemma to_double_tenth: "to_double (1 / 10) = 3602879701896397 / 36028797018963968"
  by (subst to_double_eval [where e = "- 4"]) (simp_all add: pow2_def round_half_even_def Let_def)

lemma to_double_six_tenths: "to_double (3 / 5) = 5404319552844595 / 9007199254740992"
  by (subst to_double_eval [where e = "- 1"]) (simp_all add: pow2_def round_half_even_def Let_def)

lemma to_double_59_2 [simp]: "to_double (59 / 2) = 59 / 2"
  by (subst to_double_eval [where e = 4]) (simp_all add: pow2_def round_half_even_def Let_def)

lemma difference_3201_3151:
  "to_double (to_double (3201 / 100) - to_double (3151 / 100)) =
     140737488355327 / 281474976710656"
  unfolding to_double_3151 to_double_3201
  by (subst to_double_eval [where e = "- 2"]) (simp_all add: pow2_def round_half_even_def Let_def)

lemma difference_six_tenths_tenth:
  "to_double (3 / 5) - to_double (1 / 10) = 18014398509481983 / 36028797018963968 \<and>
   to_double (to_double (3 / 5) - to_double (1 / 10)) = 1 / 2"
proof -
  have a: "to_double (3 / 5) - to_double (1 / 10) = 18014398509481983 / 36028797018963968"
    unfolding to_double_tenth to_double_six_tenths by simp
  have b: "to_double (18014398509481983 / 36028797018963968) = 1 / 2"
    by (subst to_double_eval [where e = "- 2"])
       (simp_all add: pow2_def round_half_even_def Let_def)
  show ?thesis
    unfolding a using b by simp
qed

section \<open>The evaluator, the categories and the gate\<close>

lemma thresholds_ordered:
  "map_of THRESHOLDS name = Some thr \<Longrightarrow> thr_min thr < thr_max thr"
  by (auto simp: THRESHOLDS_def split: if_splits)

lemma status_low_or_high:
  "withinAlertRange name v = Some st \<Longrightarrow> st = ''low'' \<or> st = ''high''"
  by (auto simp: withinAlertRange_def split: option.splits if_splits)

lemma unmonitored_is_normal: "map_of THRESHOLDS name = None \<Longrightarrow> withinAlertRange name v = None"
  by (simp add: withinAlertRange_def)

lemma shouldInsert_iff:
  "shouldInsert now name val st prior \<longleftrightarrow>
     \<not> (\<exists>p. prior = Some p \<and> a_status p = st \<and>
            \<bar>to_double (val - to_double (a_value p))\<bar> < minDelta name \<and>
            now - triggered_at p div 1000 < 120000)"
  by (cases prior) (auto simp: shouldInsert_def ALERT_COOLDOWN_MS_def Let_def)

text \<open>Every \<open>minDelta\<close> is a double, so rounding a difference does not carry it across one.\<close>

lemma minDelta_values:
  "minDelta name = 1 / 2 \<or> minDelta name = 2 \<or> minDelta name = 50 \<or> minDelta name = 30 \<or>
   minDelta name = 1"
  by (simp add: minDelta_def kindFromName_def ALERT_MIN_DELTA_def Let_def)

lemma minDelta_rounding:
  assumes "minDelta name \<le> \<bar>z\<bar>"
  shows "minDelta name \<le> \<bar>to_double z\<bar>"
proof -
  have half: "(1 / 2 :: real) \<le> \<bar>z\<bar> \<Longrightarrow> 1 / 2 \<le> \<bar>to_double z\<bar>"
    by (rule to_double_abs_ge [where em = "- 1" and M = "2 ^ 52"]) (simp_all add: pow2_def)
  have one: "(1 :: real) \<le> \<bar>z\<bar> \<Longrightarrow> 1 \<le> \<bar>to_double z\<bar>"
    by (rule to_double_abs_ge [where em = 0 and M = "2 ^ 52"]) (simp_all add: pow2_def)
  have two: "(2 :: real) \<le> \<bar>z\<bar> \<Longrightarrow> 2 \<le> \<bar>to_double z\<bar>"
    by (rule to_double_abs_ge [where em = 1 and M = "2 ^ 52"]) (simp_all add: pow2_def)
  have thirty: "(30 :: real) \<le> \<bar>z\<bar> \<Longrightarrow> 30 \<le> \<bar>to_double z\<bar>"
    by (rule to_double_abs_ge [where em = 4 and M = "15 * 2 ^ 49"]) (simp_all add: pow2_def)
  have fifty: "(50 :: real) \<le> \<bar>z\<bar> \<Longrightarrow> 50 \<le> \<bar>to_double z\<bar>"
    by (rule to_double_abs_ge [where em = 5 and M = "25 * 2 ^ 48"]) (simp_all add: pow2_def)
  from minDelta_values [of name] assms half one two thirty fifty show ?thesis
    by metis
qed

lemma str_includes_sublist: "str_includes s t \<longleftrightarrow> sublist t s"
  by (induction s) (simp_all add: sublist_Cons_right)

lemma minDelta_other: "kindFromName (Some n) = ''other'' \<Longrightarrow> minDelta n = 1"
  by (simp add: minDelta_def ALERT_MIN_DELTA_def)

lemma minDelta_temperature: "minDelta ''Temperature Sensor 1'' = 1 / 2"
  by (simp add: minDelta_def kindFromName_def toLowerCase_def lower_char_def ALERT_MIN_DELTA_def)

section \<open>The store operations\<close>

lemma alerts_insert_reading [simp]: "alerts (insert_reading s name v u t) = alerts s"
  by (simp add: insert_reading_def)

lemma sensors_insert_reading [simp]: "sensors (insert_reading s name v u t) = sensors s"
  by (simp add: insert_reading_def)

lemma sensor_data_insert_reading:
  "sensor_data (insert_reading s name v u t) =
     sensor_data s @ [\<lparr>sd_sensor_name = name, sd_value = v, sd_unit = u, recorded_at = t\<rparr>]"
  by (simp add: insert_reading_def)

lemma alerts_upsert_sensor [simp]: "alerts (fst (upsert_sensor s name v u t)) = alerts s"
  by (simp add: upsert_sensor_def Let_def split: option.splits)

lemma sensor_data_upsert_sensor [simp]:
  "sensor_data (fst (upsert_sensor s name v u t)) = sensor_data s"
  by (simp add: upsert_sensor_def Let_def split: option.splits)

lemma alerts_insert_alert:
  "alerts (insert_alert s name v st t) =
     alerts s @ [\<lparr>a_sensor_name = name, a_value = v, a_status = st, triggered_at = t\<rparr>]"
  by (simp add: insert_alert_def)

lemma sensors_insert_alert [simp]: "sensors (insert_alert s name v st t) = sensors s"
  by (simp add: insert_alert_def)

lemma sensor_data_insert_alert [simp]: "sensor_data (insert_alert s name v st t) = sensor_data s"
  by (simp add: insert_alert_def)

lemma find_name_Some:
  "find (\<lambda>r. s_name r = name) rows = Some old \<Longrightarrow> old \<in> set rows \<and> s_name old = name"
  by (induction rows) (auto split: if_splits)

lemma find_name_None:
  "find (\<lambda>r. s_name r = name) rows = None \<longleftrightarrow> name \<notin> s_name ` set rows"
  by (induction rows) auto

lemma upsert_sensor_row:
  "s_name (snd (upsert_sensor s name v u t)) = name \<and>
   s_value (snd (upsert_sensor s name v u t)) = v \<and>
   s_unit (snd (upsert_sensor s name v u t)) = u \<and>
   updated_at (snd (upsert_sensor s name v u t)) = t"
  by (auto simp: upsert_sensor_def Let_def split: option.splits dest: find_name_Some)

lemma upsert_sensor_row_in:
  "snd (upsert_sensor s name v u t) \<in> set (sensors (fst (upsert_sensor s name v u t)))"
proof (cases "find (\<lambda>r. s_name r = name) (sensors s)")
  case None
  then show ?thesis by (simp add: upsert_sensor_def Let_def)
next
  case (Some old)
  then have "old \<in> set (sensors s)" "s_name old = name"
    using find_name_Some by blast+
  then show ?thesis
    using Some by (force simp: upsert_sensor_def Let_def image_iff)
qed

lemma upsert_sensor_names:
  "map s_name (sensors (fst (upsert_sensor s name v u t))) =
     (if name \<in> s_name ` set (sensors s) then map s_name (sensors s)
      else map s_name (sensors s) @ [name])"
proof (cases "find (\<lambda>r. s_name r = name) (sensors s)")
  case None
  then have "name \<notin> s_name ` set (sensors s)"
    by (simp add: find_name_None)
  with None show ?thesis
    by (simp add: upsert_sensor_def Let_def)
next
  case (Some old)
  then have old: "s_name old = name" and "name \<in> s_name ` set (sensors s)"
    using find_name_Some by force+
  moreover have "map s_name (map (\<lambda>r. if s_name r = name
        then old\<lparr>s_value := v, s_unit := u, updated_at := t\<rparr> else r) (sensors s)) =
      map s_name (sensors s)"
    using old by (induction "sensors s") auto
  ultimately show ?thesis
    using Some by (simp add: upsert_sensor_def Let_def)
qed

lemma upsert_sensor_distinct:
  "distinct (map s_name (sensors s)) \<Longrightarrow>
   distinct (map s_name (sensors (fst (upsert_sensor s name v u t))))"
  by (simp add: upsert_sensor_names)

lemma alerts_written [simp]: "alerts (fst (written rt s name val u)) = alerts s"
  by (simp add: written_def)

lemma sensor_data_written:
  "sensor_data (fst (written rt s name val u)) =
     sensor_data s @
       [\<lparr>sd_sensor_name = name, sd_value = val, sd_unit = u, recorded_at = now_reading rt\<rparr>]"
  by (simp add: written_def sensor_data_insert_reading)

lemma written_row:
  "s_name (snd (written rt s name val u)) = name \<and>
   s_value (snd (written rt s name val u)) = val \<and>
   s_unit (snd (written rt s name val u)) = u \<and>
   updated_at (snd (written rt s name val u)) = now_snapshot rt"
  unfolding written_def by (rule upsert_sensor_row)

lemma written_row_in:
  "snd (written rt s name val u) \<in> set (sensors (fst (written rt s name val u)))"
  unfolding written_def by (rule upsert_sensor_row_in)

section \<open>The two orderings and the most recent alert\<close>

text \<open>
  The lookup of the last alert returns an alert of the sensor that no other alert of the
  sensor is more recent than, and nothing exactly when the sensor has no alert.
\<close>

lemma order_by_triggered_at_desc_props:
  "mset (order_by_triggered_at_desc rows) = mset rows \<and>
   sorted_wrt (\<lambda>a b. triggered_at a \<ge> triggered_at b) (order_by_triggered_at_desc rows)"
proof -
  have "sorted (map (\<lambda>a. - triggered_at a) (order_by_triggered_at_desc rows))"
    by (simp add: order_by_triggered_at_desc_def)
  then have "sorted_wrt (\<lambda>a b. triggered_at a \<ge> triggered_at b) (order_by_triggered_at_desc rows)"
    by (simp add: sorted_map)
  then show ?thesis
    by (simp add: order_by_triggered_at_desc_def)
qed

lemma getLatestSensors_props:
  "mset (getLatestSensors key s) = mset (sensors s) \<and>
   sorted (map (\<lambda>r. (key (s_name r), s_name r)) (getLatestSensors key s))"
  by (simp add: getLatestSensors_def)

lemma getLatestSensors_distinct:
  assumes "distinct (map s_name (sensors s))"
  shows "distinct (map s_name (getLatestSensors key s))"
proof -
  have "mset (map s_name (getLatestSensors key s)) = mset (map s_name (sensors s))"
    by (simp add: getLatestSensors_def)
  then show ?thesis
    using assms mset_eq_imp_distinct_iff by blast
qed

text \<open>The order of the pairs of a key and a name, written out.\<close>

lemma getLatestSensors_sorted:
  "sorted_wrt (\<lambda>a b. key (s_name a) < key (s_name b) \<or>
                      (key (s_name a) = key (s_name b) \<and> s_name a \<le> s_name b))
     (getLatestSensors key s)"
proof -
  have "sorted (map (\<lambda>r. (key (s_name r), s_name r)) (getLatestSensors key s))"
    using getLatestSensors_props by blast
  then have "sorted_wrt (\<lambda>a b. (key (s_name a), s_name a) \<le> (key (s_name b), s_name b))
      (getLatestSensors key s)"
    by (simp add: sorted_map)
  then show ?thesis
    by (rule sorted_wrt_mono_rel [rotated]) (auto simp: less_eq_prod_def)
qed

lemma last_alert_cong: "alerts s = alerts s' \<Longrightarrow> last_alert s name = last_alert s' name"
  by (simp add: last_alert_def)

lemma last_alert_None:
  "last_alert s name = None \<longleftrightarrow> (\<forall>a \<in> set (alerts s). a_sensor_name a \<noteq> name)"
proof -
  let ?rows = "filter (\<lambda>a. a_sensor_name a = name) (alerts s)"
  have "last_alert s name = None \<longleftrightarrow> order_by_triggered_at_desc ?rows = []"
    by (simp add: last_alert_def split: list.splits)
  also have "\<dots> \<longleftrightarrow> ?rows = []"
    by (metis order_by_triggered_at_desc_props mset_zero_iff)
  also have "\<dots> \<longleftrightarrow> (\<forall>a \<in> set (alerts s). a_sensor_name a \<noteq> name)"
    by (simp add: filter_empty_conv)
  finally show ?thesis .
qed

lemma last_alert_Some:
  assumes "last_alert s name = Some a"
  shows "a \<in> set (alerts s) \<and> a_sensor_name a = name \<and>
         (\<forall>b \<in> set (alerts s). a_sensor_name b = name \<longrightarrow> triggered_at b \<le> triggered_at a)"
proof -
  let ?rows = "filter (\<lambda>a. a_sensor_name a = name) (alerts s)"
  from assms obtain rest where srt: "order_by_triggered_at_desc ?rows = a # rest"
    by (auto simp: last_alert_def split: list.splits)
  have m: "mset (a # rest) = mset ?rows"
    and o: "sorted_wrt (\<lambda>a b. triggered_at a \<ge> triggered_at b) (a # rest)"
    using order_by_triggered_at_desc_props [of ?rows] unfolding srt by simp_all
  from m have s: "set (a # rest) = set ?rows"
    by (rule mset_eq_setD)
  then have "a \<in> set ?rows" by auto
  moreover have "triggered_at b \<le> triggered_at a" if "b \<in> set ?rows" for b
  proof -
    from that s have "b = a \<or> b \<in> set rest" by auto
    with o show ?thesis by auto
  qed
  ultimately show ?thesis by auto
qed

section \<open>The statements shared by the handler and the simulator\<close>

text \<open>\<open>ingest\<close> when no query throws.\<close>

lemma ingest_store_ok:
  assumes "store_ok rt"
  shows "ingest rt s name val u =
     (case withinAlertRange name val of
        None \<Rightarrow> (fst (written rt s name val u), [SensorUpdated (snd (written rt s name val u))],
                 Some (snd (written rt s name val u)))
      | Some st \<Rightarrow>
          if shouldInsert (date_now rt) name val st (last_alert s name)
          then (insert_alert (fst (written rt s name val u)) name val st (now_alert rt),
                [SensorUpdated (snd (written rt s name val u)),
                 SensorAlert \<lparr>ev_sensor = name, ev_value = val, ev_status = st,
                               ev_time = new_date rt\<rparr>],
                Some (snd (written rt s name val u)))
          else (fst (written rt s name val u), [SensorUpdated (snd (written rt s name val u))],
                Some (snd (written rt s name val u))))"
proof -
  have la: "last_alert (fst (written rt s name val u)) name = last_alert s name"
    by (rule last_alert_cong) simp
  show ?thesis
    using assms la
    by (simp add: ingest_def alert_branch_def store_ok_def written_def Let_def split_beta
             split: option.splits)
qed

text \<open>The gate, read off the store and the events that \<open>ingest\<close> leaves.\<close>

lemma ingest_gate:
  assumes ok: "store_ok rt"
    and st: "withinAlertRange name val = Some st"
    and run: "ingest rt s name val u = (s', evs, r)"
  shows "((alerts s' = alerts s \<and> (\<forall>p. SensorAlert p \<notin> set evs)) \<longleftrightarrow>
            (\<exists>prior. last_alert s name = Some prior \<and> a_status prior = st \<and>
               \<bar>to_double (val - to_double (a_value prior))\<bar> < minDelta name \<and>
               date_now rt - triggered_at prior div 1000 < 120000)) \<and>
         ((alerts s' = alerts s \<and> (\<forall>p. SensorAlert p \<notin> set evs)) \<or>
          (alerts s' = alerts s @
               [\<lparr>a_sensor_name = name, a_value = val, a_status = st,
                 triggered_at = now_alert rt\<rparr>] \<and>
           evs = [SensorUpdated (snd (written rt s name val u)),
                  SensorAlert \<lparr>ev_sensor = name, ev_value = val, ev_status = st,
                                ev_time = new_date rt\<rparr>]))"
  using run st unfolding ingest_store_ok [OF ok]
  by (auto simp: alerts_insert_alert shouldInsert_iff split: if_splits)

lemma ingest_store_ok_written:
  assumes "store_ok rt" "ingest rt s name val u = (s', evs, r)"
  shows "r = Some (snd (written rt s name val u)) \<and>
         sensor_data s' = sensor_data (fst (written rt s name val u)) \<and>
         sensors s' = sensors (fst (written rt s name val u))"
  using assms(2) unfolding ingest_store_ok [OF assms(1)]
  by (auto split: option.splits if_splits)

lemma ingest_cases:
  assumes "ingest rt s name val u = (s', evs, r)"
  shows "(s' = s \<and> evs = [] \<and> r = None) \<or>
    (s' = insert_reading s name val u (now_reading rt) \<and> evs = [] \<and> r = None) \<or>
    (s' = fst (written rt s name val u) \<and> evs = [SensorUpdated (snd (written rt s name val u))]) \<or>
    (\<exists>st. withinAlertRange name val = Some st \<and>
       s' = insert_alert (fst (written rt s name val u)) name val st (now_alert rt) \<and>
       evs = [SensorUpdated (snd (written rt s name val u)),
              SensorAlert \<lparr>ev_sensor = name, ev_value = val, ev_status = st,
                            ev_time = new_date rt\<rparr>] \<and>
       r = Some (snd (written rt s name val u)))"
  using assms
  by (auto simp: ingest_def alert_branch_def written_def Let_def split_beta
           split: if_splits option.splits)

lemma ingest_normal:
  assumes "withinAlertRange name val = None" "ingest rt s name val u = (s', evs, r)"
  shows "alerts s' = alerts s \<and> (\<forall>p. SensorAlert p \<notin> set evs)"
  using ingest_cases [OF assms(2)] assms(1) by auto

lemma ingest_events:
  assumes "ingest rt s name val u = (s', evs, r)"
  shows "evs = [] \<or>
    (\<exists>row. row \<in> set (sensors s') \<and> s_name row = name \<and> s_value row = val \<and>
       (evs = [SensorUpdated row] \<or>
        (\<exists>p. evs = [SensorUpdated row, SensorAlert p] \<and>
           ev_sensor p = s_name row \<and> ev_value p = s_value row)))"
proof -
  let ?row = "snd (written rt s name val u)"
  have row: "s_name ?row = name" "s_value ?row = val"
    using written_row [of rt s name val u] by simp_all
  have mem: "?row \<in> set (sensors (fst (written rt s name val u)))"
    by (rule written_row_in)
  from ingest_cases [OF assms] show ?thesis
  proof (elim disjE exE conjE)
    assume "s' = fst (written rt s name val u)" "evs = [SensorUpdated ?row]"
    with row mem show ?thesis by auto
  next
    fix st
    assume "s' = insert_alert (fst (written rt s name val u)) name val st (now_alert rt)"
      and "evs = [SensorUpdated ?row,
              SensorAlert \<lparr>ev_sensor = name, ev_value = val, ev_status = st,
                            ev_time = new_date rt\<rparr>]"
    with row mem show ?thesis by auto
  qed simp_all
qed

lemma ingest_deltas:
  assumes "ingest rt s name val u = (s', evs, r)"
  shows "\<forall>e \<in> set evs. is_delta e"
  using ingest_cases [OF assms] by auto

lemma ingest_alert_status:
  assumes "ingest rt s name val u = (s', evs, r)" "SensorAlert p \<in> set evs"
  shows "ev_status p = ''low'' \<or> ev_status p = ''high''"
  using ingest_cases [OF assms(1)] assms(2) by (auto dest: status_low_or_high)

section \<open>The handler and the simulator turn\<close>

lemma toNumber_nonfinite: "\<not> Number_isFinite (Number_js v) \<Longrightarrow> toNumber v = 0"
  by (simp add: toNumber_def)

lemma toNumber_finite: "Number_js v = Finite x \<Longrightarrow> toNumber v = x"
  by (simp add: toNumber_def)

lemma post_reading_valid:
  assumes "req_name req = Some name" "name \<noteq> []" "req_value req \<noteq> JUndefined"
  shows "post_reading rt s req =
     (case ingest rt s name (toNumber (req_value req)) (unit_or_null (req_unit req)) of
        (s', evs, None) \<Rightarrow> (s', evs, internal_error)
      | (s', evs, Some latest) \<Rightarrow> (s', evs, Response 201 (RowBody latest)))"
  using assms by (simp add: post_reading_def)

lemma post_reading_ingest:
  assumes "req_name req = Some name" "name \<noteq> []" "req_value req \<noteq> JUndefined"
    and "post_reading rt s req = (s', evs, resp)"
  shows "\<exists>r. ingest rt s name (toNumber (req_value req)) (unit_or_null (req_unit req)) = (s', evs, r)"
  using assms by (auto simp: post_reading_def split: prod.splits option.splits)

lemma post_reading_events_ingest:
  assumes "post_reading rt s req = (s', evs, resp)" "evs \<noteq> []"
  shows "\<exists>name r. req_name req = Some name \<and>
     ingest rt s name (toNumber (req_value req)) (unit_or_null (req_unit req)) = (s', evs, r)"
  using assms by (auto simp: post_reading_def split: option.splits if_splits prod.splits)

lemma post_reading_400_iff: "post_reading rt s req = (s', evs, resp) \<Longrightarrow>
   status_code resp = 400 \<longleftrightarrow>
     (req_name req = None \<or> req_name req = Some [] \<or> req_value req = JUndefined)"
  by (auto simp: post_reading_def bad_request_def internal_error_def
           split: option.splits if_splits prod.splits)

lemma post_reading_rejected:
  "req_name req = None \<or> req_name req = Some [] \<or> req_value req = JUndefined \<Longrightarrow>
   post_reading rt s req = (s, [], bad_request)"
  by (auto simp: post_reading_def split: option.splits)

lemma post_reading_normal:
  assumes "req_name req = Some name" "withinAlertRange name (toNumber (req_value req)) = None"
    and "post_reading rt s req = (s', evs, resp)"
  shows "alerts s' = alerts s \<and> (\<forall>p. SensorAlert p \<notin> set evs)"
proof (cases "name = [] \<or> req_value req = JUndefined")
  case True
  then have "post_reading rt s req = (s, [], bad_request)"
    using assms(1) by (intro post_reading_rejected) auto
  with assms(3) show ?thesis by simp
next
  case False
  then obtain r where
    "ingest rt s name (toNumber (req_value req)) (unit_or_null (req_unit req)) = (s', evs, r)"
    using post_reading_ingest [OF assms(1) _ _ assms(3)] by blast
  with assms(2) show ?thesis by (rule ingest_normal)
qed

lemma post_reading_events:
  assumes "post_reading rt s req = (s', evs, resp)"
  shows "evs = [] \<or>
    (\<exists>row. row \<in> set (sensors s') \<and>
       (evs = [SensorUpdated row] \<or>
        (\<exists>p. evs = [SensorUpdated row, SensorAlert p] \<and>
           ev_sensor p = s_name row \<and> ev_value p = s_value row)))"
proof (cases "evs = []")
  case True
  then show ?thesis by simp
next
  case False
  with assms obtain name r where
    "ingest rt s name (toNumber (req_value req)) (unit_or_null (req_unit req)) = (s', evs, r)"
    using post_reading_events_ingest by blast
  from ingest_events [OF this] show ?thesis by blast
qed

lemma post_reading_deltas:
  assumes "post_reading rt s req = (s', evs, resp)"
  shows "\<forall>e \<in> set evs. is_delta e"
  using post_reading_events [OF assms] by auto

lemma simulate_sensor_ingest:
  assumes "simulate_sensor env s name thr = (s', evs)"
  shows "\<exists>r. ingest (sim_runtime env) s name (sim_candidate env s name thr) (unitFor name) = (s', evs, r)"
  using assms by (auto simp: simulate_sensor_def split: prod.splits)

section \<open>The order of the events\<close>

lemma update_precedes_alert_Nil: "update_precedes_alert []"
  by (simp add: update_precedes_alert_def)

lemma update_precedes_alert_update: "update_precedes_alert [SensorUpdated row]"
  by (simp add: update_precedes_alert_def)

lemma update_precedes_alert_pair:
  "ev_sensor p = s_name row \<Longrightarrow> ev_value p = s_value row \<Longrightarrow>
   update_precedes_alert [SensorUpdated row, SensorAlert p]"
  by (auto simp: update_precedes_alert_def nth_Cons' less_Suc_eq)

lemma update_precedes_alert_append:
  assumes "update_precedes_alert xs" "update_precedes_alert ys"
  shows "update_precedes_alert (xs @ ys)"
  unfolding update_precedes_alert_def
proof (intro allI impI)
  fix i p
  assume i: "i < length (xs @ ys)" and a: "(xs @ ys) ! i = SensorAlert p"
  show "0 < i \<and> (\<exists>row. (xs @ ys) ! (i - 1) = SensorUpdated row \<and>
           s_name row = ev_sensor p \<and> s_value row = ev_value p)"
  proof (cases "i < length xs")
    case True
    with a have "xs ! i = SensorAlert p"
      by (simp add: nth_append)
    with assms(1) True have "0 < i \<and> (\<exists>row. xs ! (i - 1) = SensorUpdated row \<and>
           s_name row = ev_sensor p \<and> s_value row = ev_value p)"
      by (simp add: update_precedes_alert_def)
    moreover have "i - 1 < length xs"
      using True by arith
    then have "(xs @ ys) ! (i - 1) = xs ! (i - 1)"
      by (simp add: nth_append)
    ultimately show ?thesis by simp
  next
    case False
    define j where "j = i - length xs"
    from False i have j: "j < length ys" and ij: "i = length xs + j"
      by (simp_all add: j_def)
    from a ij have "ys ! j = SensorAlert p"
      by (simp add: nth_append)
    with assms(2) j have *: "0 < j \<and> (\<exists>row. ys ! (j - 1) = SensorUpdated row \<and>
           s_name row = ev_sensor p \<and> s_value row = ev_value p)"
      by (simp add: update_precedes_alert_def)
    then have "i - 1 = length xs + (j - 1)"
      using ij by arith
    then have "(xs @ ys) ! (i - 1) = ys ! (j - 1)"
      by (simp only: nth_append_length_plus)
    with * ij show ?thesis by simp
  qed
qed

lemma ingest_update_precedes_alert:
  assumes "ingest rt s name val u = (s', evs, r)"
  shows "update_precedes_alert evs"
  using ingest_events [OF assms]
  by (auto intro: update_precedes_alert_Nil update_precedes_alert_update update_precedes_alert_pair)

lemma simulate_names_update_precedes_alert:
  "simulate_names env s names = (s', evs) \<Longrightarrow> update_precedes_alert evs"
proof (induction names arbitrary: s s' evs)
  case Nil
  then show ?case by (simp add: update_precedes_alert_Nil)
next
  case (Cons name names)
  show ?case
  proof (cases "map_of THRESHOLDS name")
    case None
    with Cons.prems show ?thesis by (simp add: update_precedes_alert_Nil)
  next
    case (Some thr)
    obtain s1 evs1 where one: "simulate_sensor (env name) s name thr = (s1, evs1)"
      by (cases "simulate_sensor (env name) s name thr")
    obtain s2 evs2 where rest: "simulate_names env s1 names = (s2, evs2)"
      by (cases "simulate_names env s1 names")
    from Cons.prems Some one rest have evs: "evs = evs1 @ evs2"
      by simp
    have "update_precedes_alert evs1"
      using one simulate_sensor_ingest ingest_update_precedes_alert by blast
    moreover have "update_precedes_alert evs2"
      using rest by (rule Cons.IH)
    ultimately show ?thesis
      unfolding evs by (rule update_precedes_alert_append)
  qed
qed

section \<open>Invariants of the store\<close>

lemma db_inv_init: "db_inv init_db"
  by (simp add: db_inv_def init_db_def)

lemma db_inv_insert_reading: "db_inv s \<Longrightarrow> db_inv (insert_reading s name v u t)"
  by (simp add: db_inv_def)

lemma db_inv_upsert: "db_inv s \<Longrightarrow> db_inv (fst (upsert_sensor s name v u t))"
  by (simp add: db_inv_def upsert_sensor_distinct)

lemma db_inv_written: "db_inv s \<Longrightarrow> db_inv (fst (written rt s name v u))"
  unfolding written_def by (intro db_inv_upsert db_inv_insert_reading)

lemma db_inv_insert_alert:
  "db_inv s \<Longrightarrow> st = ''low'' \<or> st = ''high'' \<Longrightarrow> db_inv (insert_alert s name v st t)"
  by (auto simp: db_inv_def alerts_insert_alert)

lemma db_inv_ingest:
  assumes "db_inv s" "ingest rt s name val u = (s', evs, r)"
  shows "db_inv s'"
  using ingest_cases [OF assms(2)] assms(1)
  by (auto intro: db_inv_insert_reading db_inv_written db_inv_insert_alert
           dest: status_low_or_high)

lemma db_inv_post_reading:
  assumes "db_inv s" "post_reading rt s req = (s', evs, resp)"
  shows "db_inv s'"
  using assms
  by (auto simp: post_reading_def split: option.splits if_splits prod.splits
           dest: db_inv_ingest)

lemma db_inv_simulate_sensor:
  assumes "db_inv s" "simulate_sensor env s name thr = (s', evs)"
  shows "db_inv s'"
  using assms simulate_sensor_ingest db_inv_ingest by blast

lemma db_inv_simulate_names:
  "db_inv s \<Longrightarrow> simulate_names env s names = (s', evs) \<Longrightarrow> db_inv s'"
proof (induction names arbitrary: s s' evs)
  case Nil
  then show ?case by simp
next
  case (Cons name names)
  show ?case
  proof (cases "map_of THRESHOLDS name")
    case None
    with Cons.prems show ?thesis by simp
  next
    case (Some thr)
    obtain s1 evs1 where one: "simulate_sensor (env name) s name thr = (s1, evs1)"
      by (cases "simulate_sensor (env name) s name thr")
    obtain s2 evs2 where rest: "simulate_names env s1 names = (s2, evs2)"
      by (cases "simulate_names env s1 names")
    from Cons.prems(2) Some one rest have "s' = s2"
      by simp
    moreover have "db_inv s1"
      using Cons.prems(1) one by (rule db_inv_simulate_sensor)
    ultimately show ?thesis
      using Cons.IH rest by blast
  qed
qed

lemma db_inv_simulateOnce:
  "db_inv s \<Longrightarrow> simulateOnce env s = (s', evs) \<Longrightarrow> db_inv s'"
  unfolding simulateOnce_def by (rule db_inv_simulate_names)

lemma db_inv_seed_loop: "db_inv s \<Longrightarrow> db_inv (seed_loop tm fl q s rows)"
  by (induction tm fl q s rows rule: seed_loop.induct)
     (auto simp: Let_def intro: db_inv_upsert db_inv_insert_reading)

lemma db_inv_seed: "db_inv s \<Longrightarrow> db_inv (seedSensorsIfEmpty tm fl s)"
  by (simp add: seedSensorsIfEmpty_def db_inv_seed_loop)

lemma db_inv_clear: "db_inv s \<Longrightarrow> db_inv (fst (alerts_clear fails s))"
  by (simp add: alerts_clear_def db_inv_def)

lemma db_inv_step: "db_inv (sys_db y) \<Longrightarrow> db_inv (sys_db (step y x))"
proof (cases x)
  case (Post rt req)
  assume "db_inv (sys_db y)"
  then show ?thesis
    using Post db_inv_post_reading [of "sys_db y" rt req]
    by (auto split: prod.splits)
next
  case (Simulate env)
  assume "db_inv (sys_db y)"
  then show ?thesis
    using Simulate db_inv_simulateOnce [of "sys_db y" env]
    by (auto split: prod.splits)
next
  case (Clear fails)
  assume "db_inv (sys_db y)"
  then show ?thesis
    using Clear db_inv_clear [of "sys_db y" fails]
    by (auto split: prod.splits)
next
  case (Seed tm fl)
  assume "db_inv (sys_db y)"
  then show ?thesis
    using Seed by (simp add: db_inv_seed)
next
  case (Connect k ce)
  assume "db_inv (sys_db y)"
  then show ?thesis
    using Connect by (simp split: option.splits)
next
  case (Disconnect k)
  assume "db_inv (sys_db y)"
  then show ?thesis
    using Disconnect by simp
qed

lemma db_inv_run: "db_inv (sys_db y) \<Longrightarrow> db_inv (sys_db (run y ops))"
  unfolding run_def by (induction ops arbitrary: y) (simp_all add: db_inv_step)

lemma db_inv_reachable: "db_inv (sys_db (run init_system ops))"
  by (rule db_inv_run) (simp add: init_system_def db_inv_init)

section \<open>What a connected socket is sent\<close>

lemma io_emit_inbox: "ib k = Some sent \<Longrightarrow> io_emit evs ib k = Some (sent @ evs)"
  by (simp add: io_emit_def)

lemma simulate_names_deltas:
  "simulate_names env s names = (s', evs) \<Longrightarrow> \<forall>e \<in> set evs. is_delta e"
proof (induction names arbitrary: s s' evs)
  case Nil
  then show ?case by simp
next
  case (Cons name names)
  show ?case
  proof (cases "map_of THRESHOLDS name")
    case None
    with Cons.prems show ?thesis by simp
  next
    case (Some thr)
    obtain s1 evs1 where one: "simulate_sensor (env name) s name thr = (s1, evs1)"
      by (cases "simulate_sensor (env name) s name thr")
    obtain s2 evs2 where rest: "simulate_names env s1 names = (s2, evs2)"
      by (cases "simulate_names env s1 names")
    from Cons.prems Some one rest have evs: "evs = evs1 @ evs2"
      by simp
    have "\<forall>e \<in> set evs1. is_delta e"
      using one simulate_sensor_ingest ingest_deltas by blast
    moreover have "\<forall>e \<in> set evs2. is_delta e"
      using rest by (rule Cons.IH)
    ultimately show ?thesis
      unfolding evs by auto
  qed
qed

lemma step_inbox_deltas:
  assumes "inbox y k = Some sent" "\<not> touches_socket k x"
  shows "\<exists>ds. inbox (step y x) k = Some (sent @ ds) \<and> (\<forall>e \<in> set ds. is_delta e)"
proof (cases x)
  case (Post rt req)
  obtain d evs r where out: "post_reading rt (sys_db y) req = (d, evs, r)"
    by (cases "post_reading rt (sys_db y) req")
  then have "inbox (step y x) k = Some (sent @ evs)"
    using Post assms(1) by (simp add: io_emit_inbox)
  with post_reading_deltas [OF out] show ?thesis by blast
next
  case (Simulate env)
  obtain d evs where out: "simulateOnce env (sys_db y) = (d, evs)"
    by (cases "simulateOnce env (sys_db y)")
  then have "inbox (step y x) k = Some (sent @ evs)"
    using Simulate assms(1) by (simp add: io_emit_inbox)
  moreover have "\<forall>e \<in> set evs. is_delta e"
    using out unfolding simulateOnce_def by (rule simulate_names_deltas)
  ultimately show ?thesis by blast
next
  case (Clear fails)
  then have "inbox (step y x) k = Some (sent @ snd (alerts_clear fails (sys_db y)))"
    using assms(1) by (simp add: io_emit_inbox split: prod.splits)
  moreover have "\<forall>e \<in> set (snd (alerts_clear fails (sys_db y))). is_delta e"
    by (simp add: alerts_clear_def)
  ultimately show ?thesis by blast
next
  case (Seed tm fl)
  then have "inbox (step y x) k = Some (sent @ [])"
    using assms(1) by simp
  then show ?thesis by force
next
  case (Connect j ce)
  then have "inbox (step y x) k = Some (sent @ [])"
    using assms by (simp split: option.splits)
  then show ?thesis by force
next
  case (Disconnect j)
  then have "inbox (step y x) k = Some (sent @ [])"
    using assms by simp
  then show ?thesis by force
qed

lemma run_inbox_deltas:
  "inbox y k = Some sent \<Longrightarrow> \<forall>x \<in> set ops. \<not> touches_socket k x \<Longrightarrow>
   \<exists>ds. inbox (run y ops) k = Some (sent @ ds) \<and> (\<forall>e \<in> set ds. is_delta e)"
proof (induction ops arbitrary: y sent)
  case Nil
  then show ?case by (simp add: run_def)
next
  case (Cons x ops)
  from Cons.prems obtain ds1 where
    one: "inbox (step y x) k = Some (sent @ ds1)" and d1: "\<forall>e \<in> set ds1. is_delta e"
    using step_inbox_deltas [of y k sent x] by auto
  from Cons.IH [OF one] Cons.prems(2) obtain ds2 where
    rest: "inbox (run (step y x) ops) k = Some ((sent @ ds1) @ ds2)"
    and d2: "\<forall>e \<in> set ds2. is_delta e"
    by auto
  have "run y (x # ops) = run (step y x) ops"
    by (simp add: run_def)
  with rest have "inbox (run y (x # ops)) k = Some (sent @ (ds1 @ ds2))"
    by simp
  moreover have "\<forall>e \<in> set (ds1 @ ds2). is_delta e"
    using d1 d2 by auto
  ultimately show ?case by blast
qed

section \<open>The clamp and the rounding\<close>









section \<open>Evaluations at concrete inputs\<close>

lemma temp_request_sel:
  "req_name (temp_request v) = Some ''Temperature Sensor 1''"
  "req_value (temp_request v) = v"
  "req_unit (temp_request v) = Some ''C''"
  by (simp_all add: temp_request_def)

lemma store_ok_runtime_at: "store_ok (runtime_at t)"
  by (simp add: store_ok_def runtime_at_def)

lemma sim_env_at_sel: "sim_runtime (sim_env_at t p x) = runtime_at t"
  by (simp add: sim_env_at_def)

lemma last_alert_db_after_30:
  "last_alert db_after_30 ''Temperature Sensor 1'' = Some (temp_alert 30 ''high'' 1000000)"
  by (simp add: last_alert_def db_after_30_def order_by_triggered_at_desc_def temp_alert_def)

lemma last_alert_init_db: "last_alert init_db name = None"
  by (simp add: last_alert_def init_db_def order_by_triggered_at_desc_def)

text \<open>
  End-to-end scenario 1 of the spec: with bounds 18 and 28, posting 30 to the empty store
  gives the snapshot 30, one alert row of status high and the two events.
\<close>

lemma scenario_1:
  "post_reading (runtime_at 1000) init_db (temp_request (JNumber (Finite 30))) =
     (db_after_30,
      [SensorUpdated (temp_row 30 1000000),
       SensorAlert \<lparr>ev_sensor = ''Temperature Sensor 1'', ev_value = 30, ev_status = ''high'',
                     ev_time = 1000\<rparr>],
      Response 201 (RowBody (temp_row 30 1000000)))"
  by (simp add: post_reading_def temp_request_def ingest_def runtime_at_def init_db_def
        toNumber_def unit_or_null_def insert_reading_def upsert_sensor_def alert_branch_def
        withinAlertRange_def THRESHOLDS_def last_alert_def order_by_triggered_at_desc_def
        shouldInsert_def insert_alert_def db_after_30_def temp_row_def temp_alert_def Let_def)

lemma run_post_30:
  "sys_db (run init_system [Post (runtime_at 1000) (temp_request (JNumber (Finite 30)))]) =
     db_after_30"
  by (simp add: run_def init_system_def scenario_1)

text \<open>
  End-to-end scenario 3 of the spec: 15 posted right after the alert for 30 flips the status
  to low and is recorded although no time has passed.
\<close>

lemma scenario_3:
  "post_reading (runtime_at 1000) db_after_30 (temp_request (JNumber (Finite 15))) =
     (db_after_30
        \<lparr>sensor_data := sensor_data db_after_30 @
           [\<lparr>sd_sensor_name = ''Temperature Sensor 1'', sd_value = 15, sd_unit = Some ''C'',
             recorded_at = 1000000\<rparr>],
         sensors := [temp_row 15 1000000],
         sensors_id_seq := 2,
         alerts := [temp_alert 30 ''high'' 1000000, temp_alert 15 ''low'' 1000000]\<rparr>,
      [SensorUpdated (temp_row 15 1000000),
       SensorAlert \<lparr>ev_sensor = ''Temperature Sensor 1'', ev_value = 15, ev_status = ''low'',
                     ev_time = 1000\<rparr>],
      Response 201 (RowBody (temp_row 15 1000000)))"
  by (simp add: post_reading_def temp_request_def ingest_def runtime_at_def
        toNumber_def unit_or_null_def insert_reading_def upsert_sensor_def alert_branch_def
        withinAlertRange_def THRESHOLDS_def last_alert_def order_by_triggered_at_desc_def
        shouldInsert_def insert_alert_def db_after_30_def temp_row_def temp_alert_def Let_def)

lemma simulate_example:
  "snd (simulateOnce (\<lambda>n. sim_env_at 1000 (1 / 8) (1 / 4)) init_db) =
     [SensorUpdated \<lparr>s_id = 1, s_name = ''Temperature Sensor 1'', s_value = 59 / 2,
        s_unit = Some [CHR 0xC2, CHR 0xB0, CHR ''C''], updated_at = 1000000\<rparr>,
      SensorAlert \<lparr>ev_sensor = ''Temperature Sensor 1'', ev_value = 59 / 2,
        ev_status = ''high'', ev_time = 1000\<rparr>,
      SensorUpdated \<lparr>s_id = 2, s_name = ''Humidity Sensor 1'', s_value = 65,
        s_unit = Some ''%'', updated_at = 1000000\<rparr>,
      SensorAlert \<lparr>ev_sensor = ''Humidity Sensor 1'', ev_value = 65,
        ev_status = ''high'', ev_time = 1000\<rparr>,
      SensorUpdated \<lparr>s_id = 3, s_name = ''CO2 Sensor 1'', s_value = 875,
        s_unit = Some ''ppm'', updated_at = 1000000\<rparr>,
      SensorAlert \<lparr>ev_sensor = ''CO2 Sensor 1'', ev_value = 875,
        ev_status = ''high'', ev_time = 1000\<rparr>,
      SensorUpdated \<lparr>s_id = 4, s_name = ''Light Sensor 1'', s_value = 800,
        s_unit = Some ''lux'', updated_at = 1000000\<rparr>,
      SensorAlert \<lparr>ev_sensor = ''Light Sensor 1'', ev_value = 800,
        ev_status = ''high'', ev_time = 1000\<rparr>]"
  by (simp add: simulateOnce_def SENSOR_NAMES_def THRESHOLDS_def simulate_sensor_def sim_candidate_def
     sim_env_at_def nextValue_def clamped_candidate_def baseDrift_def pSpike_def clampMin_def clampMax_def toFixed2_def
     init_db_def unitFor_def ingest_def runtime_at_def insert_reading_def upsert_sensor_def alert_branch_def
        withinAlertRange_def last_alert_def order_by_triggered_at_desc_def
        shouldInsert_def insert_alert_def Let_def)

lemma sim_candidate_example:
  "sim_candidate (sim_env_at 1000 (1 / 8) (1 / 4)) init_db ''Temperature Sensor 1''
     \<lparr>thr_min = 18, thr_max = 28\<rparr> = 59 / 2"
  by (simp add: sim_candidate_def sim_env_at_def init_db_def nextValue_def clamped_candidate_def
        clampMin_def clampMax_def baseDrift_def pSpike_def toFixed2_def Let_def)

lemma sim_candidate_example_normal:
  "sim_candidate (sim_env_at 1000 (1 / 2) (1 / 2)) init_db ''Temperature Sensor 1''
     \<lparr>thr_min = 18, thr_max = 28\<rparr> = 23"
  by (simp add: sim_candidate_def sim_env_at_def init_db_def nextValue_def clamped_candidate_def
        clampMin_def clampMax_def baseDrift_def pSpike_def toFixed2_def Let_def)

lemma sim_normal_example:
  "withinAlertRange ''Temperature Sensor 1''
     (sim_candidate (sim_env_at 1000 (1 / 2) (1 / 2)) init_db ''Temperature Sensor 1''
        \<lparr>thr_min = 18, thr_max = 28\<rparr>) = None"
  unfolding sim_candidate_example_normal by (simp add: withinAlertRange_def THRESHOLDS_def)


lemma nextValue_example:
  "nextValue \<lparr>rnd_walk = 1 / 2, rnd_spike = 1 / 2, rnd_dir = 1 / 2, rnd_mag = 1 / 2\<rparr>
       ''Temperature Sensor 1'' 0 \<lparr>thr_min = 18, thr_max = 28\<rparr> = 108 / 10"
  by (simp add: nextValue_def clamped_candidate_def clampMin_def clampMax_def baseDrift_def
        pSpike_def toFixed2_def Let_def)

section \<open>The posted literals as doubles\<close>

lemma to_double_141_4 [simp]: "to_double (141 / 4) = 141 / 4"
  by (subst to_double_eval [where e = 5]) (simp_all add: pow2_def round_half_even_def Let_def)

lemma to_double_621: "to_double (621 / 10) = 8739798026865869 / 140737488355328"
  by (subst to_double_eval [where e = 5]) (simp_all add: pow2_def round_half_even_def Let_def)

lemma to_double_641: "to_double (641 / 10) = 2255318250894131 / 35184372088832"
  by (subst to_double_eval [where e = 6]) (simp_all add: pow2_def round_half_even_def Let_def)

lemma difference_641_621:
  "to_double (to_double (641 / 10) - to_double (621 / 10)) = 281474976710655 / 140737488355328"
  unfolding to_double_621 to_double_641
  by (subst to_double_eval [where e = 0]) (simp_all add: pow2_def round_half_even_def Let_def)

lemma toNumber_literals:
  "toNumber (JNumber (Finite (3151 / 100))) = to_double (3151 / 100)"
  "toNumber (JNumber (Finite (3201 / 100))) = to_double (3201 / 100)"
  "toNumber (JNumber (Finite (1 / 10))) = to_double (1 / 10)"
  "toNumber (JNumber (Finite (3 / 5))) = to_double (3 / 5)"
  "toNumber (JNumber (Finite (621 / 10))) = to_double (621 / 10)"
  "toNumber (JNumber (Finite (641 / 10))) = to_double (641 / 10)"
  by (simp_all add: toNumber_def to_double_3151 to_double_3201 to_double_tenth
        to_double_six_tenths to_double_621 to_double_641)

lemma toNumber_doubles:
  "toNumber (JNumber (Finite 15)) = 15"
  "toNumber (JNumber (Finite (141 / 4))) = 141 / 4"
  by (simp_all add: toNumber_def)

lemma literal_status:
  "withinAlertRange ''Temperature Sensor 1'' (to_double (3151 / 100)) = Some ''high''"
  "withinAlertRange ''Temperature Sensor 1'' (to_double (3201 / 100)) = Some ''high''"
  "withinAlertRange ''Temperature Sensor 1'' (to_double (1 / 10)) = Some ''low''"
  "withinAlertRange ''Temperature Sensor 1'' (to_double (3 / 5)) = Some ''low''"
  "withinAlertRange ''Humidity Sensor 1'' (to_double (621 / 10)) = Some ''high''"
  "withinAlertRange ''Humidity Sensor 1'' (to_double (641 / 10)) = Some ''high''"
  by (simp_all add: withinAlertRange_def THRESHOLDS_def to_double_3151 to_double_3201
        to_double_tenth to_double_six_tenths to_double_621 to_double_641)

lemma minDelta_humidity: "minDelta ''Humidity Sensor 1'' = 2"
  by (simp add: minDelta_def kindFromName_def toLowerCase_def lower_char_def ALERT_MIN_DELTA_def)

text \<open>The most recent alert of the temperature sensor in the store with a history.\<close>

lemma last_alert_db_history:
  "last_alert db_history ''Temperature Sensor 1'' =
     Some (temp_alert (to_double (3151 / 100)) ''high'' 5000999)"
  by (simp add: last_alert_def db_history_def order_by_triggered_at_desc_def temp_alert_def)

text \<open>
  What a call of the handler leaves when no query throws, with the value \<open>val\<close> that
  \<open>toNumber\<close> gives: the alert rows, read off the gate.
\<close>

lemma post_reading_alerts:
  assumes "store_ok rt" "req_name req = Some name" "name \<noteq> []" "req_value req \<noteq> JUndefined"
    and "toNumber (req_value req) = val"
    and "withinAlertRange name val = Some st"
  shows "alerts (fst (post_reading rt s req)) =
     (if shouldInsert (date_now rt) name val st (last_alert s name)
      then alerts s @ [\<lparr>a_sensor_name = name, a_value = val, a_status = st,
                        triggered_at = now_alert rt\<rparr>]
      else alerts s)"
  using assms(5,6)
  by (simp add: post_reading_valid [OF assms(2-4)] ingest_store_ok [OF assms(1)]
        alerts_insert_alert)

lemma temp_post_alerts:
  assumes "toNumber v = val" "withinAlertRange ''Temperature Sensor 1'' val = Some st"
    and "v \<noteq> JUndefined"
  shows "alerts (fst (post_reading (runtime_at t) s (temp_request v))) =
     (if shouldInsert t ''Temperature Sensor 1'' val st (last_alert s ''Temperature Sensor 1'')
      then alerts s @ [temp_alert val st (1000 * t)]
      else alerts s)"
proof -
  have "toNumber (req_value (temp_request v)) = val" "req_value (temp_request v) \<noteq> JUndefined"
    using assms by (simp_all add: temp_request_sel)
  from post_reading_alerts [OF store_ok_runtime_at temp_request_sel(1) _ this(2,1) assms(2)]
  show ?thesis
    by (simp add: runtime_at_def temp_alert_def)
qed

lemma step_post_db: "sys_db (step y (Post rt req)) = fst (post_reading rt (sys_db y) req)"
  by (cases "post_reading rt (sys_db y) req") simp

lemma run_two_posts:
  "sys_db (run init_system [Post rt1 r1, Post rt2 r2]) =
     fst (post_reading rt2 (fst (post_reading rt1 init_db r1)) r2)"
  by (simp add: run_def step_post_db init_system_def del: step.simps)

lemma alerts_init_db: "alerts init_db = []"
  by (simp add: init_db_def)

lemma last_alert_single:
  "alerts d = [temp_alert val st t] \<Longrightarrow>
   last_alert d ''Temperature Sensor 1'' = Some (temp_alert val st t)"
  by (simp add: last_alert_def order_by_triggered_at_desc_def temp_alert_def)

lemma post_alerts_at:
  assumes "req_name req = Some name" "name \<noteq> []" "req_value req = v" "v \<noteq> JUndefined"
    and "toNumber v = val" "withinAlertRange name val = Some st"
  shows "alerts (fst (post_reading (runtime_at t) s req)) =
     (if shouldInsert t name val st (last_alert s name)
      then alerts s @ [\<lparr>a_sensor_name = name, a_value = val, a_status = st,
                        triggered_at = 1000 * t\<rparr>]
      else alerts s)"
proof -
  have "toNumber (req_value req) = val" "req_value req \<noteq> JUndefined"
    using assms by simp_all
  from post_reading_alerts [OF store_ok_runtime_at assms(1,2) this(2,1) assms(6)]
  show ?thesis
    by (simp add: runtime_at_def)
qed

lemma named_request_sel:
  "req_name (named_request name v) = Some name"
  "req_value (named_request name v) = v"
  "req_unit (named_request name v) = None"
  by (simp_all add: named_request_def)

section \<open>A store to replay\<close>

lemma to_double_3201_idem:
  "to_double (4505007002254049 / 140737488355328) = 4505007002254049 / 140737488355328"
  using to_double_idem [of "3201 / 100"] unfolding to_double_3201 .

lemma replay_db:
  "sys_db (run init_system replay_ops) =
     \<lparr>sensor_data =
        [\<lparr>sd_sensor_name = ''Temperature Sensor 1'', sd_value = to_double (3201 / 100),
          sd_unit = Some ''C'', recorded_at = 1000000\<rparr>,
         \<lparr>sd_sensor_name = ''b'', sd_value = 1, sd_unit = None, recorded_at = 2000000\<rparr>,
         \<lparr>sd_sensor_name = ''B'', sd_value = 2, sd_unit = None, recorded_at = 3000000\<rparr>,
         \<lparr>sd_sensor_name = ''Humidity Sensor 1'', sd_value = 20, sd_unit = None,
           recorded_at = 4000000\<rparr>],
      sensors =
        [temp_row (to_double (3201 / 100)) 1000000,
         \<lparr>s_id = 2, s_name = ''b'', s_value = 1, s_unit = None, updated_at = 2000000\<rparr>,
         \<lparr>s_id = 3, s_name = ''B'', s_value = 2, s_unit = None, updated_at = 3000000\<rparr>,
         \<lparr>s_id = 4, s_name = ''Humidity Sensor 1'', s_value = 20, s_unit = None,
           updated_at = 4000000\<rparr>],
      sensors_id_seq = 4,
      alerts =
        [temp_alert (to_double (3201 / 100)) ''high'' 1000999,
         \<lparr>a_sensor_name = ''Humidity Sensor 1'', a_value = 20, a_status = ''low'',
           triggered_at = 4000000\<rparr>]\<rparr>"
  unfolding to_double_3201
  by (simp add: run_def init_system_def replay_ops_def post_reading_def temp_request_def
        named_request_def ingest_def runtime_at_def init_db_def toNumber_def to_double_3201
        unit_or_null_def insert_reading_def upsert_sensor_def alert_branch_def
        withinAlertRange_def THRESHOLDS_def last_alert_def order_by_triggered_at_desc_def
        shouldInsert_def insert_alert_def temp_row_def temp_alert_def Let_def)

lemma replay_inbox: "inbox (run init_system replay_ops) k = None"
  by (simp add: run_def init_system_def replay_ops_def io_emit_def split: prod.splits)

lemma caseless_keys:
  "caseless_key ''b'' = ''b'' @ [CHR 0x01]"
  "caseless_key ''B'' = ''b'' @ [CHR 0x02]"
  by (simp_all add: caseless_key_def toLowerCase_def lower_char_def)

section \<open>The threshold evaluator\<close>

text \<open>
  Claim C4. For a sensor with configured bounds and any finite value \<open>v\<close>, the evaluator
  returns high exactly when \<open>v\<close> is above the maximum, low exactly when \<open>v\<close> is below the
  minimum, and normal (\<open>null\<close>) otherwise; a value equal to a bound is normal.
\<close>

theorem withinAlertRange_iff:
  assumes "map_of THRESHOLDS name = Some thr"
  shows "(withinAlertRange name v = Some ''high'' \<longleftrightarrow> v > thr_max thr) \<and>
         (withinAlertRange name v = Some ''low'' \<longleftrightarrow> v < thr_min thr) \<and>
         (withinAlertRange name v = None \<longleftrightarrow> thr_min thr \<le> v \<and> v \<le> thr_max thr) \<and>
         withinAlertRange name (thr_min thr) = None \<and>
         withinAlertRange name (thr_max thr) = None"
proof -
  have lt: "thr_min thr < thr_max thr"
    using assms by (rule thresholds_ordered)
  show ?thesis
    using assms lt by (auto simp: withinAlertRange_def)
qed

theorem withinAlertRange_iff_witness:
  "map_of THRESHOLDS ''Temperature Sensor 1'' = Some \<lparr>thr_min = 18, thr_max = 28\<rparr> \<and>
   withinAlertRange ''Temperature Sensor 1'' 28 = None \<and>
   withinAlertRange ''Temperature Sensor 1'' 18 = None \<and>
   withinAlertRange ''Temperature Sensor 1'' (2801 / 100) = Some ''high'' \<and>
   withinAlertRange ''Temperature Sensor 1'' (1799 / 100) = Some ''low''"
proof -
  have h: "map_of THRESHOLDS ''Temperature Sensor 1'' = Some \<lparr>thr_min = 18, thr_max = 28\<rparr>"
    by (simp add: THRESHOLDS_def)
  show ?thesis
    using h withinAlertRange_iff [OF h, of "2801 / 100"]
      withinAlertRange_iff [OF h, of "1799 / 100"]
    by simp
qed

section \<open>The dedup gate\<close>

text \<open>
  Claim C1, as the code has it. When no query throws and the evaluated status of an
  ingested reading is low or high, the alert is suppressed (the alert table is unchanged
  and no \<open>sensor-alert\<close> is emitted) if and only if the sensor has a prior alert that no
  other alert of the sensor is more recent than (the one that the lookup returns), of the
  same status, such that the difference that the code computes in doubles,
  \<open>Number(val) - Number(last.value)\<close> rounded to the nearest double, is in absolute value
  less than the category's \<open>minDelta\<close>, and such that \<open>Date.now()\<close> is less than 120000 ms
  after the millisecond of its stamp; otherwise one alert row with the new value and
  status is appended and its event emitted. This holds for the handler of
  \<open>POST /api/reading\<close> and for each sensor of the simulator.
\<close>

theorem dedup_gate_iff:
  "(store_ok rt \<and> req_name req = Some name \<and> name \<noteq> [] \<and> req_value req \<noteq> JUndefined \<and>
    withinAlertRange name (toNumber (req_value req)) = Some st \<and>
    post_reading rt s req = (s', evs, resp) \<longrightarrow>
      (st = ''low'' \<or> st = ''high'') \<and>
      ((alerts s' = alerts s \<and> (\<forall>p. SensorAlert p \<notin> set evs)) \<longleftrightarrow>
         (\<exists>prior. prior \<in> set (alerts s) \<and> a_sensor_name prior = name \<and>
            (\<forall>b \<in> set (alerts s). a_sensor_name b = name \<longrightarrow>
               triggered_at b \<le> triggered_at prior) \<and>
            last_alert s name = Some prior \<and> a_status prior = st \<and>
            \<bar>to_double (toNumber (req_value req) - to_double (a_value prior))\<bar> < minDelta name \<and>
            date_now rt - triggered_at prior div 1000 < 120000)) \<and>
      ((alerts s' = alerts s \<and> (\<forall>p. SensorAlert p \<notin> set evs)) \<or>
       (alerts s' = alerts s @
            [\<lparr>a_sensor_name = name, a_value = toNumber (req_value req), a_status = st,
              triggered_at = now_alert rt\<rparr>] \<and>
        SensorAlert \<lparr>ev_sensor = name, ev_value = toNumber (req_value req), ev_status = st,
                      ev_time = new_date rt\<rparr> \<in> set evs))) \<and>
   (store_ok (sim_runtime env) \<and>
    withinAlertRange name (sim_candidate env s name thr) = Some st \<and>
    simulate_sensor env s name thr = (s', evs) \<longrightarrow>
      (st = ''low'' \<or> st = ''high'') \<and>
      ((alerts s' = alerts s \<and> (\<forall>p. SensorAlert p \<notin> set evs)) \<longleftrightarrow>
         (\<exists>prior. prior \<in> set (alerts s) \<and> a_sensor_name prior = name \<and>
            (\<forall>b \<in> set (alerts s). a_sensor_name b = name \<longrightarrow>
               triggered_at b \<le> triggered_at prior) \<and>
            last_alert s name = Some prior \<and> a_status prior = st \<and>
            \<bar>to_double (sim_candidate env s name thr - to_double (a_value prior))\<bar>
              < minDelta name \<and>
            date_now (sim_runtime env) - triggered_at prior div 1000 < 120000)) \<and>
      ((alerts s' = alerts s \<and> (\<forall>p. SensorAlert p \<notin> set evs)) \<or>
       (alerts s' = alerts s @
            [\<lparr>a_sensor_name = name, a_value = sim_candidate env s name thr, a_status = st,
              triggered_at = now_alert (sim_runtime env)\<rparr>] \<and>
        SensorAlert \<lparr>ev_sensor = name, ev_value = sim_candidate env s name thr, ev_status = st,
                      ev_time = new_date (sim_runtime env)\<rparr> \<in> set evs))) \<and>
   (last_alert s name = None \<longleftrightarrow> (\<forall>a \<in> set (alerts s). a_sensor_name a \<noteq> name))"
proof (intro conjI impI)
  assume h: "store_ok rt \<and> req_name req = Some name \<and> name \<noteq> [] \<and> req_value req \<noteq> JUndefined \<and>
    withinAlertRange name (toNumber (req_value req)) = Some st \<and>
    post_reading rt s req = (s', evs, resp)"
  then obtain r where
    "ingest rt s name (toNumber (req_value req)) (unit_or_null (req_unit req)) = (s', evs, r)"
    using post_reading_ingest by blast
  from ingest_gate [OF _ _ this, of st] h
  have gate: "(alerts s' = alerts s \<and> (\<forall>p. SensorAlert p \<notin> set evs)) \<longleftrightarrow>
         (\<exists>prior. last_alert s name = Some prior \<and> a_status prior = st \<and>
            \<bar>to_double (toNumber (req_value req) - to_double (a_value prior))\<bar> < minDelta name \<and>
            date_now rt - triggered_at prior div 1000 < 120000)"
    and alt: "(alerts s' = alerts s \<and> (\<forall>p. SensorAlert p \<notin> set evs)) \<or>
       (alerts s' = alerts s @
            [\<lparr>a_sensor_name = name, a_value = toNumber (req_value req), a_status = st,
              triggered_at = now_alert rt\<rparr>] \<and>
        SensorAlert \<lparr>ev_sensor = name, ev_value = toNumber (req_value req), ev_status = st,
                      ev_time = new_date rt\<rparr> \<in> set evs)"
    by auto
  from h show "st = ''low'' \<or> st = ''high''"
    using status_low_or_high by blast
  show "(alerts s' = alerts s \<and> (\<forall>p. SensorAlert p \<notin> set evs)) \<longleftrightarrow>
         (\<exists>prior. prior \<in> set (alerts s) \<and> a_sensor_name prior = name \<and>
            (\<forall>b \<in> set (alerts s). a_sensor_name b = name \<longrightarrow>
               triggered_at b \<le> triggered_at prior) \<and>
            last_alert s name = Some prior \<and> a_status prior = st \<and>
            \<bar>to_double (toNumber (req_value req) - to_double (a_value prior))\<bar> < minDelta name \<and>
            date_now rt - triggered_at prior div 1000 < 120000)"
    unfolding gate using last_alert_Some [of s name] by blast
  from alt show "(alerts s' = alerts s \<and> (\<forall>p. SensorAlert p \<notin> set evs)) \<or>
       (alerts s' = alerts s @
            [\<lparr>a_sensor_name = name, a_value = toNumber (req_value req), a_status = st,
              triggered_at = now_alert rt\<rparr>] \<and>
        SensorAlert \<lparr>ev_sensor = name, ev_value = toNumber (req_value req), ev_status = st,
                      ev_time = new_date rt\<rparr> \<in> set evs)" .
next
  assume h: "store_ok (sim_runtime env) \<and>
    withinAlertRange name (sim_candidate env s name thr) = Some st \<and>
    simulate_sensor env s name thr = (s', evs)"
  then obtain r where
    "ingest (sim_runtime env) s name (sim_candidate env s name thr) (unitFor name) = (s', evs, r)"
    using simulate_sensor_ingest by blast
  from ingest_gate [OF _ _ this, of st] h
  have gate: "(alerts s' = alerts s \<and> (\<forall>p. SensorAlert p \<notin> set evs)) \<longleftrightarrow>
         (\<exists>prior. last_alert s name = Some prior \<and> a_status prior = st \<and>
            \<bar>to_double (sim_candidate env s name thr - to_double (a_value prior))\<bar>
              < minDelta name \<and>
            date_now (sim_runtime env) - triggered_at prior div 1000 < 120000)"
    and alt: "(alerts s' = alerts s \<and> (\<forall>p. SensorAlert p \<notin> set evs)) \<or>
       (alerts s' = alerts s @
            [\<lparr>a_sensor_name = name, a_value = sim_candidate env s name thr, a_status = st,
              triggered_at = now_alert (sim_runtime env)\<rparr>] \<and>
        SensorAlert \<lparr>ev_sensor = name, ev_value = sim_candidate env s name thr, ev_status = st,
                      ev_time = new_date (sim_runtime env)\<rparr> \<in> set evs)"
    by auto
  from h show "st = ''low'' \<or> st = ''high''"
    using status_low_or_high by blast
  show "(alerts s' = alerts s \<and> (\<forall>p. SensorAlert p \<notin> set evs)) \<longleftrightarrow>
         (\<exists>prior. prior \<in> set (alerts s) \<and> a_sensor_name prior = name \<and>
            (\<forall>b \<in> set (alerts s). a_sensor_name b = name \<longrightarrow>
               triggered_at b \<le> triggered_at prior) \<and>
            last_alert s name = Some prior \<and> a_status prior = st \<and>
            \<bar>to_double (sim_candidate env s name thr - to_double (a_value prior))\<bar>
              < minDelta name \<and>
            date_now (sim_runtime env) - triggered_at prior div 1000 < 120000)"
    unfolding gate using last_alert_Some [of s name] by blast
  from alt show "(alerts s' = alerts s \<and> (\<forall>p. SensorAlert p \<notin> set evs)) \<or>
       (alerts s' = alerts s @
            [\<lparr>a_sensor_name = name, a_value = sim_candidate env s name thr, a_status = st,
              triggered_at = now_alert (sim_runtime env)\<rparr>] \<and>
        SensorAlert \<lparr>ev_sensor = name, ev_value = sim_candidate env s name thr, ev_status = st,
                      ev_time = new_date (sim_runtime env)\<rparr> \<in> set evs)" .
next
  show "last_alert s name = None \<longleftrightarrow> (\<forall>a \<in> set (alerts s). a_sensor_name a \<noteq> name)"
    by (rule last_alert_None)
qed

text \<open>
  The claim as the spec states it, with the plain difference of the two values, fails in
  both directions. Posted 31.51 and one second later 32.01, the second alert is
  suppressed although the two values differ by 0.5, which is not less than the
  \<open>minDelta\<close> 0.5: the doubles nearest to them differ by 0.49999999999999645. Posted 0.1
  and one second later 0.6, the second alert is raised although the two doubles differ
  by less than 0.5: the double nearest to their difference is 0.5.
\<close>

theorem dedup_gate_counterexample:
  "alerts (sys_db (run init_system
      [Post (runtime_at 1000) (temp_request (JNumber (Finite (3151 / 100)))),
       Post (runtime_at 2000) (temp_request (JNumber (Finite (3201 / 100))))])) =
     [temp_alert (to_double (3151 / 100)) ''high'' 1000000] \<and>
   \<not> \<bar>3201 / 100 - 3151 / 100 :: real\<bar> < minDelta ''Temperature Sensor 1'' \<and>
   alerts (sys_db (run init_system
      [Post (runtime_at 1000) (temp_request (JNumber (Finite (1 / 10)))),
       Post (runtime_at 2000) (temp_request (JNumber (Finite (3 / 5))))])) =
     [temp_alert (to_double (1 / 10)) ''low'' 1000000,
      temp_alert (to_double (3 / 5)) ''low'' 2000000] \<and>
   \<bar>to_double (3 / 5) - to_double (1 / 10)\<bar> < minDelta ''Temperature Sensor 1''"
proof -
  let ?T = "''Temperature Sensor 1''"
  let ?d1 = "fst (post_reading (runtime_at 1000) init_db
        (temp_request (JNumber (Finite (3151 / 100)))))"
  have a1: "alerts ?d1 = [temp_alert (to_double (3151 / 100)) ''high'' 1000000]"
    by (simp add: temp_post_alerts [OF toNumber_literals(1) literal_status(1)]
          last_alert_init_db shouldInsert_def alerts_init_db)
  have a2: "shouldInsert 2000 ?T (to_double (3201 / 100)) ''high'' (last_alert ?d1 ?T) = False"
    unfolding last_alert_single [OF a1]
    by (simp add: shouldInsert_def temp_alert_def to_double_idem difference_3201_3151
          minDelta_temperature ALERT_COOLDOWN_MS_def)
  have A: "alerts (sys_db (run init_system
      [Post (runtime_at 1000) (temp_request (JNumber (Finite (3151 / 100)))),
       Post (runtime_at 2000) (temp_request (JNumber (Finite (3201 / 100))))])) =
     [temp_alert (to_double (3151 / 100)) ''high'' 1000000]"
    unfolding run_two_posts
    by (simp add: temp_post_alerts [OF toNumber_literals(2) literal_status(2)] a2 a1)
  let ?d2 = "fst (post_reading (runtime_at 1000) init_db
        (temp_request (JNumber (Finite (1 / 10)))))"
  have b1: "alerts ?d2 = [temp_alert (to_double (1 / 10)) ''low'' 1000000]"
    by (simp add: temp_post_alerts [OF toNumber_literals(3) literal_status(3)]
          last_alert_init_db shouldInsert_def alerts_init_db)
  have b2: "shouldInsert 2000 ?T (to_double (3 / 5)) ''low'' (last_alert ?d2 ?T) = True"
    unfolding last_alert_single [OF b1]
    by (simp add: shouldInsert_def temp_alert_def to_double_idem
          difference_six_tenths_tenth [THEN conjunct2] minDelta_temperature
          ALERT_COOLDOWN_MS_def)
  have B: "alerts (sys_db (run init_system
      [Post (runtime_at 1000) (temp_request (JNumber (Finite (1 / 10)))),
       Post (runtime_at 2000) (temp_request (JNumber (Finite (3 / 5))))])) =
     [temp_alert (to_double (1 / 10)) ''low'' 1000000,
      temp_alert (to_double (3 / 5)) ''low'' 2000000]"
    unfolding run_two_posts
    by (simp add: temp_post_alerts [OF toNumber_literals(4) literal_status(4)] b2 b1)
  have C: "\<not> \<bar>3201 / 100 - 3151 / 100 :: real\<bar> < minDelta ?T"
    by (simp add: minDelta_temperature)
  have D: "\<bar>to_double (3 / 5) - to_double (1 / 10)\<bar> < minDelta ?T"
    unfolding difference_six_tenths_tenth [THEN conjunct1] by (simp add: minDelta_temperature)
  from A B C D show ?thesis by blast
qed

theorem dedup_gate_iff_witness:
  "store_ok (runtime_at 124999) \<and>
   withinAlertRange ''Temperature Sensor 1'' (toNumber (JNumber (Finite (3201 / 100)))) =
     Some ''high'' \<and>
   last_alert db_history ''Temperature Sensor 1'' =
     Some (temp_alert (to_double (3151 / 100)) ''high'' 5000999) \<and>
   \<bar>to_double (toNumber (JNumber (Finite (3201 / 100))) - to_double (to_double (3151 / 100)))\<bar>
     < minDelta ''Temperature Sensor 1'' \<and>
   date_now (runtime_at 124999) - 5000999 div 1000 < 120000 \<and>
   alerts (fst (post_reading (runtime_at 124999) db_history
                  (temp_request (JNumber (Finite (3201 / 100)))))) = alerts db_history \<and>
   (\<forall>p. SensorAlert p \<notin> set (fst (snd (post_reading (runtime_at 124999) db_history
                  (temp_request (JNumber (Finite (3201 / 100)))))))) \<and>
   \<not> date_now (runtime_at 125000) - 5000999 div 1000 < 120000 \<and>
   alerts (fst (post_reading (runtime_at 125000) db_history
                  (temp_request (JNumber (Finite (3201 / 100)))))) =
     alerts db_history @ [temp_alert (to_double (3201 / 100)) ''high'' 125000000] \<and>
   store_ok (sim_runtime (sim_env_at 1000 (1 / 8) (1 / 4))) \<and>
   withinAlertRange ''Temperature Sensor 1''
     (sim_candidate (sim_env_at 1000 (1 / 8) (1 / 4)) init_db ''Temperature Sensor 1''
        \<lparr>thr_min = 18, thr_max = 28\<rparr>) = Some ''high'' \<and>
   last_alert init_db ''Temperature Sensor 1'' = None \<and>
   alerts (fst (simulate_sensor (sim_env_at 1000 (1 / 8) (1 / 4)) init_db ''Temperature Sensor 1''
                  \<lparr>thr_min = 18, thr_max = 28\<rparr>)) =
     [temp_alert (59 / 2) ''high'' 1000000]"
proof -
  let ?T = "''Temperature Sensor 1''"
  let ?req = "temp_request (JNumber (Finite (3201 / 100)))"
  let ?prior = "temp_alert (to_double (3151 / 100)) ''high'' 5000999"
  let ?out = "post_reading (runtime_at 124999) db_history ?req"
  let ?out' = "post_reading (runtime_at 125000) db_history ?req"
  have st: "withinAlertRange ?T (toNumber (JNumber (Finite (3201 / 100)))) = Some ''high''"
    by (simp add: toNumber_literals literal_status)
  have hyp: "store_ok (runtime_at 124999) \<and> req_name ?req = Some ?T \<and>
      ?T \<noteq> [] \<and> req_value ?req \<noteq> JUndefined \<and>
      withinAlertRange ?T (toNumber (req_value ?req)) = Some ''high'' \<and>
      ?out = (fst ?out, fst (snd ?out), snd (snd ?out))"
    using st by (simp add: temp_request_sel store_ok_runtime_at)
  have hyp': "store_ok (runtime_at 125000) \<and> req_name ?req = Some ?T \<and>
      ?T \<noteq> [] \<and> req_value ?req \<noteq> JUndefined \<and>
      withinAlertRange ?T (toNumber (req_value ?req)) = Some ''high'' \<and>
      ?out' = (fst ?out', fst (snd ?out'), snd (snd ?out'))"
    using st by (simp add: temp_request_sel store_ok_runtime_at)
  have p1: "?prior \<in> set (alerts db_history)"
    by (simp add: db_history_def)
  have p2: "a_sensor_name ?prior = ?T" and p5: "a_status ?prior = ''high''"
    by (simp_all add: temp_alert_def)
  have p3: "\<forall>b \<in> set (alerts db_history). a_sensor_name b = ?T \<longrightarrow>
      triggered_at b \<le> triggered_at ?prior"
    by (simp add: db_history_def temp_alert_def)
  have delta: "\<bar>to_double (toNumber (JNumber (Finite (3201 / 100))) -
      to_double (to_double (3151 / 100)))\<bar> < minDelta ?T"
    by (simp add: toNumber_literals to_double_idem difference_3201_3151 minDelta_temperature)
  then have p6: "\<bar>to_double (toNumber (req_value ?req) - to_double (a_value ?prior))\<bar>
      < minDelta ?T"
    by (simp add: temp_request_sel temp_alert_def)
  have cool: "date_now (runtime_at 124999) - 5000999 div 1000 < 120000"
    and hot: "\<not> date_now (runtime_at 125000) - 5000999 div 1000 < 120000"
    by (simp_all add: runtime_at_def)
  from cool have p7: "date_now (runtime_at 124999) - triggered_at ?prior div 1000 < 120000"
    by (simp add: temp_alert_def)
  from hot have n7: "\<not> date_now (runtime_at 125000) - triggered_at ?prior div 1000 < 120000"
    by (simp add: temp_alert_def)
  from p1 p2 p3 last_alert_db_history p5 p6 p7
  have rhs: "\<exists>prior. prior \<in> set (alerts db_history) \<and> a_sensor_name prior = ?T \<and>
      (\<forall>b \<in> set (alerts db_history). a_sensor_name b = ?T \<longrightarrow>
         triggered_at b \<le> triggered_at prior) \<and>
      last_alert db_history ?T = Some prior \<and> a_status prior = ''high'' \<and>
      \<bar>to_double (toNumber (req_value ?req) - to_double (a_value prior))\<bar> < minDelta ?T \<and>
      date_now (runtime_at 124999) - triggered_at prior div 1000 < 120000"
    by blast
  from dedup_gate_iff [THEN conjunct1, rule_format, OF hyp] rhs
  have post: "alerts (fst ?out) = alerts db_history \<and> (\<forall>p. SensorAlert p \<notin> set (fst (snd ?out)))"
    by blast
  have nrhs: "\<not> (\<exists>prior. prior \<in> set (alerts db_history) \<and> a_sensor_name prior = ?T \<and>
      (\<forall>b \<in> set (alerts db_history). a_sensor_name b = ?T \<longrightarrow>
         triggered_at b \<le> triggered_at prior) \<and>
      last_alert db_history ?T = Some prior \<and> a_status prior = ''high'' \<and>
      \<bar>to_double (toNumber (req_value ?req) - to_double (a_value prior))\<bar> < minDelta ?T \<and>
      date_now (runtime_at 125000) - triggered_at prior div 1000 < 120000)"
    using last_alert_db_history n7 by auto
  from dedup_gate_iff [THEN conjunct1, rule_format, OF hyp'] nrhs
  have "alerts (fst ?out') = alerts db_history @
      [\<lparr>a_sensor_name = ?T, a_value = toNumber (req_value ?req), a_status = ''high'',
        triggered_at = now_alert (runtime_at 125000)\<rparr>]"
    by blast
  then have raised': "alerts (fst ?out') =
      alerts db_history @ [temp_alert (to_double (3201 / 100)) ''high'' 125000000]"
    by (simp add: temp_request_sel toNumber_literals temp_alert_def runtime_at_def)
  let ?env = "sim_env_at 1000 (1 / 8) (1 / 4)"
  let ?thr = "\<lparr>thr_min = 18, thr_max = 28\<rparr>"
  let ?sim = "simulate_sensor ?env init_db ?T ?thr"
  have ok: "store_ok (sim_runtime ?env)"
    by (simp add: sim_env_at_sel store_ok_runtime_at)
  have sst: "withinAlertRange ?T (sim_candidate ?env init_db ?T ?thr) = Some ''high''"
    by (simp add: sim_candidate_example withinAlertRange_def THRESHOLDS_def)
  have shyp: "store_ok (sim_runtime ?env) \<and>
      withinAlertRange ?T (sim_candidate ?env init_db ?T ?thr) = Some ''high'' \<and>
      ?sim = (fst ?sim, snd ?sim)"
    using ok sst by simp
  from dedup_gate_iff [THEN conjunct2, THEN conjunct2, of init_db ?T]
  have none: "last_alert init_db ?T = None"
    by (simp add: alerts_init_db)
  then have snone: "\<not> (\<exists>prior. prior \<in> set (alerts init_db) \<and> a_sensor_name prior = ?T \<and>
      (\<forall>b \<in> set (alerts init_db). a_sensor_name b = ?T \<longrightarrow>
         triggered_at b \<le> triggered_at prior) \<and>
      last_alert init_db ?T = Some prior \<and> a_status prior = ''high'' \<and>
      \<bar>to_double (sim_candidate ?env init_db ?T ?thr - to_double (a_value prior))\<bar>
        < minDelta ?T \<and>
      date_now (sim_runtime ?env) - triggered_at prior div 1000 < 120000)"
    by simp
  from dedup_gate_iff [THEN conjunct2, THEN conjunct1, rule_format, OF shyp] snone
  have "alerts (fst ?sim) = alerts init_db @
      [\<lparr>a_sensor_name = ?T, a_value = sim_candidate ?env init_db ?T ?thr,
        a_status = ''high'', triggered_at = now_alert (sim_runtime ?env)\<rparr>]"
    by blast
  then have raised: "alerts (fst ?sim) = [temp_alert (59 / 2) ''high'' 1000000]"
    unfolding sim_candidate_example
    by (simp add: init_db_def temp_alert_def sim_env_at_sel runtime_at_def)
  show ?thesis
    using st last_alert_db_history delta cool post hot raised' ok sst none raised
      store_ok_runtime_at [of 124999]
    by blast
qed

section \<open>Status flips and large changes\<close>

text \<open>
  Claim C5, as the code has it. When no query throws, a reading raises a new alert (the
  row is appended and its \<open>sensor-alert\<close> emitted), whatever \<open>Date.now()\<close> reads, when each
  prior alert of the sensor that no other one is more recent than has another status than
  the reading, or a value whose double differs from the reading's double by at least the
  category's \<open>minDelta\<close>, or for which the difference that the code computes in doubles is
  at least \<open>minDelta\<close>: the cooldown plays no part. (The sensor has one such alert, or
  several of the same stamp, or none when it has no alert at all.)
\<close>

theorem status_flip_raises:
  assumes ok: "store_ok rt"
    and req: "req_name req = Some name" "name \<noteq> []" "req_value req \<noteq> JUndefined"
    and st: "withinAlertRange name (toNumber (req_value req)) = Some st"
    and change: "\<forall>prior \<in> set (alerts s).
       a_sensor_name prior = name \<and>
       (\<forall>b \<in> set (alerts s). a_sensor_name b = name \<longrightarrow>
          triggered_at b \<le> triggered_at prior) \<longrightarrow>
       a_status prior \<noteq> st \<or>
       minDelta name \<le> \<bar>toNumber (req_value req) - to_double (a_value prior)\<bar> \<or>
       minDelta name \<le> \<bar>to_double (toNumber (req_value req) - to_double (a_value prior))\<bar>"
    and run: "post_reading rt s req = (s', evs, resp)"
  shows "alerts s' = alerts s @
            [\<lparr>a_sensor_name = name, a_value = toNumber (req_value req), a_status = st,
              triggered_at = now_alert rt\<rparr>] \<and>
         evs = [SensorUpdated (snd (written rt s name (toNumber (req_value req))
                                      (unit_or_null (req_unit req)))),
                SensorAlert \<lparr>ev_sensor = name, ev_value = toNumber (req_value req),
                              ev_status = st, ev_time = new_date rt\<rparr>] \<and>
         status_code resp = 201"
proof -
  let ?val = "toNumber (req_value req)"
  have gate: "shouldInsert (date_now rt) name ?val st (last_alert s name)"
  proof (cases "last_alert s name")
    case None
    then show ?thesis by (simp add: shouldInsert_iff)
  next
    case (Some p)
    from last_alert_Some [OF Some] change
    have "a_status p \<noteq> st \<or> minDelta name \<le> \<bar>?val - to_double (a_value p)\<bar> \<or>
        minDelta name \<le> \<bar>to_double (?val - to_double (a_value p))\<bar>"
      by blast
    then have "a_status p \<noteq> st \<or> minDelta name \<le> \<bar>to_double (?val - to_double (a_value p))\<bar>"
      using minDelta_rounding [of name "?val - to_double (a_value p)"] by blast
    with Some show ?thesis
      by (auto simp: shouldInsert_iff)
  qed
  show ?thesis
    using run st gate
    by (auto simp: post_reading_valid [OF req] ingest_store_ok [OF ok] alerts_insert_alert)
qed

text \<open>
  The claim as the spec states it, with the plain difference of the two values, fails:
  posted 62.1 and one second later 64.1 for the humidity sensor, whose \<open>minDelta\<close> is 2,
  the second alert is suppressed although the two values differ by 2. The doubles nearest
  to them differ by 1.999999999999993.
\<close>

theorem status_flip_counterexample:
  "alerts (sys_db (run init_system
      [Post (runtime_at 1000) (named_request ''Humidity Sensor 1'' (JNumber (Finite (621 / 10)))),
       Post (runtime_at 2000) (named_request ''Humidity Sensor 1'' (JNumber (Finite (641 / 10))))])) =
     [\<lparr>a_sensor_name = ''Humidity Sensor 1'', a_value = to_double (621 / 10),
       a_status = ''high'', triggered_at = 1000000\<rparr>] \<and>
   minDelta ''Humidity Sensor 1'' \<le> \<bar>641 / 10 - 621 / 10 :: real\<bar>"
proof -
  let ?H = "''Humidity Sensor 1''"
  let ?row = "\<lparr>a_sensor_name = ?H, a_value = to_double (621 / 10), a_status = ''high'',
      triggered_at = 1000000\<rparr>"
  let ?d = "fst (post_reading (runtime_at 1000) init_db
        (named_request ?H (JNumber (Finite (621 / 10)))))"
  have name: "?H \<noteq> []"
    by simp
  have a1: "alerts ?d = [?row]"
    by (simp add: post_alerts_at [OF named_request_sel(1) name named_request_sel(2) _
            toNumber_literals(5) literal_status(5)]
          last_alert_init_db shouldInsert_def alerts_init_db)
  then have la: "last_alert ?d ?H = Some ?row"
    by (simp add: last_alert_def order_by_triggered_at_desc_def)
  have a2: "shouldInsert 2000 ?H (to_double (641 / 10)) ''high'' (last_alert ?d ?H) = False"
    unfolding la
    by (simp add: shouldInsert_def to_double_idem difference_641_621 minDelta_humidity
          ALERT_COOLDOWN_MS_def)
  have A: "alerts (sys_db (run init_system
      [Post (runtime_at 1000) (named_request ?H (JNumber (Finite (621 / 10)))),
       Post (runtime_at 2000) (named_request ?H (JNumber (Finite (641 / 10))))])) = [?row]"
    unfolding run_two_posts
    by (simp add: post_alerts_at [OF named_request_sel(1) name named_request_sel(2) _
            toNumber_literals(6) literal_status(6)] a2 a1)
  have B: "minDelta ?H \<le> \<bar>641 / 10 - 621 / 10 :: real\<bar>"
    by (simp add: minDelta_humidity)
  from A B show ?thesis by blast
qed

theorem status_flip_raises_witness:
  "store_ok (runtime_at 6000) \<and>
   withinAlertRange ''Temperature Sensor 1'' (toNumber (JNumber (Finite (141 / 4)))) =
     Some ''high'' \<and>
   alerts db_history =
     [temp_alert 35 ''high'' 1000000,
      temp_alert (to_double (3151 / 100)) ''high'' 5000999,
      \<lparr>a_sensor_name = ''Humidity Sensor 1'', a_value = 20, a_status = ''low'',
        triggered_at = 9000000\<rparr>] \<and>
   minDelta ''Temperature Sensor 1'' \<le>
     \<bar>toNumber (JNumber (Finite (141 / 4))) - to_double (to_double (3151 / 100))\<bar> \<and>
   \<not> minDelta ''Temperature Sensor 1'' \<le>
     \<bar>toNumber (JNumber (Finite (141 / 4))) - to_double 35\<bar> \<and>
   alerts (fst (post_reading (runtime_at 6000) db_history
                  (temp_request (JNumber (Finite (141 / 4)))))) =
     alerts db_history @ [temp_alert (141 / 4) ''high'' 6000000] \<and>
   withinAlertRange ''Temperature Sensor 1'' (toNumber (JNumber (Finite 15))) = Some ''low'' \<and>
   date_now (runtime_at 5001) - 5000999 div 1000 = 1 \<and>
   alerts (fst (post_reading (runtime_at 5001) db_history (temp_request (JNumber (Finite 15))))) =
     alerts db_history @ [temp_alert 15 ''low'' 5001000]"
proof -
  let ?T = "''Temperature Sensor 1''"
  let ?req = "temp_request (JNumber (Finite (141 / 4)))"
  let ?out = "post_reading (runtime_at 6000) db_history ?req"
  let ?req' = "temp_request (JNumber (Finite 15))"
  let ?out' = "post_reading (runtime_at 5001) db_history ?req'"
  have hist: "alerts db_history =
     [temp_alert 35 ''high'' 1000000,
      temp_alert (to_double (3151 / 100)) ''high'' 5000999,
      \<lparr>a_sensor_name = ''Humidity Sensor 1'', a_value = 20, a_status = ''low'',
        triggered_at = 9000000\<rparr>]"
    by (simp add: db_history_def)
  have st: "withinAlertRange ?T (toNumber (req_value ?req)) = Some ''high''"
    by (simp add: withinAlertRange_def THRESHOLDS_def toNumber_doubles temp_request_sel)
  have st': "withinAlertRange ?T (toNumber (req_value ?req')) = Some ''low''"
    by (simp add: withinAlertRange_def THRESHOLDS_def toNumber_doubles temp_request_sel)
  have far: "minDelta ?T \<le>
      \<bar>toNumber (JNumber (Finite (141 / 4))) - to_double (to_double (3151 / 100))\<bar>"
    unfolding to_double_idem
    by (simp add: toNumber_doubles to_double_3151 minDelta_temperature)
  have near: "\<not> minDelta ?T \<le> \<bar>toNumber (JNumber (Finite (141 / 4))) - to_double 35\<bar>"
    by (simp add: toNumber_doubles minDelta_temperature)
  have change: "\<forall>prior \<in> set (alerts db_history).
       a_sensor_name prior = ?T \<and>
       (\<forall>b \<in> set (alerts db_history). a_sensor_name b = ?T \<longrightarrow>
          triggered_at b \<le> triggered_at prior) \<longrightarrow>
       a_status prior \<noteq> ''high'' \<or>
       minDelta ?T \<le> \<bar>toNumber (req_value ?req) - to_double (a_value prior)\<bar> \<or>
       minDelta ?T \<le> \<bar>to_double (toNumber (req_value ?req) - to_double (a_value prior))\<bar>"
    unfolding hist using far by (simp add: temp_alert_def temp_request_sel)
  have change': "\<forall>prior \<in> set (alerts db_history).
       a_sensor_name prior = ?T \<and>
       (\<forall>b \<in> set (alerts db_history). a_sensor_name b = ?T \<longrightarrow>
          triggered_at b \<le> triggered_at prior) \<longrightarrow>
       a_status prior \<noteq> ''low'' \<or>
       minDelta ?T \<le> \<bar>toNumber (req_value ?req') - to_double (a_value prior)\<bar> \<or>
       minDelta ?T \<le> \<bar>to_double (toNumber (req_value ?req') - to_double (a_value prior))\<bar>"
    unfolding hist by (simp add: temp_alert_def)
  have out: "?out = (fst ?out, fst (snd ?out), snd (snd ?out))"
    and out': "?out' = (fst ?out', fst (snd ?out'), snd (snd ?out'))"
    by simp_all
  have name: "?T \<noteq> []"
    by simp
  have undef: "req_value ?req \<noteq> JUndefined" "req_value ?req' \<noteq> JUndefined"
    by (simp_all add: temp_request_sel)
  from status_flip_raises [OF store_ok_runtime_at temp_request_sel(1) name undef(1) st change out]
  have "alerts (fst ?out) = alerts db_history @
      [\<lparr>a_sensor_name = ?T, a_value = toNumber (req_value ?req),
        a_status = ''high'', triggered_at = now_alert (runtime_at 6000)\<rparr>]"
    by blast
  then have raised: "alerts (fst ?out) = alerts db_history @ [temp_alert (141 / 4) ''high'' 6000000]"
    by (simp add: temp_alert_def temp_request_sel toNumber_doubles runtime_at_def)
  from status_flip_raises [OF store_ok_runtime_at temp_request_sel(1) name undef(2) st' change' out']
  have "alerts (fst ?out') = alerts db_history @
      [\<lparr>a_sensor_name = ?T, a_value = toNumber (req_value ?req'),
        a_status = ''low'', triggered_at = now_alert (runtime_at 5001)\<rparr>]"
    by blast
  then have raised': "alerts (fst ?out') = alerts db_history @ [temp_alert 15 ''low'' 5001000]"
    by (simp add: temp_alert_def temp_request_sel toNumber_doubles runtime_at_def)
  have now: "date_now (runtime_at 5001) - 5000999 div 1000 = 1"
    by (simp add: runtime_at_def)
  from st have a: "withinAlertRange ?T (toNumber (JNumber (Finite (141 / 4)))) = Some ''high''"
    by (simp add: temp_request_sel)
  from st' have b: "withinAlertRange ?T (toNumber (JNumber (Finite 15))) = Some ''low''"
    by (simp add: temp_request_sel)
  show ?thesis
    using a b hist far near raised raised' now store_ok_runtime_at [of 6000]
    by blast
qed

section \<open>Normal readings never alert\<close>

text \<open>
  Claim C6. No alert row of a reachable store has a status other than low and high. A
  reading that the evaluator finds normal, and so every reading of a sensor without
  configured bounds whatever its value, leaves the alert table as it is and emits no
  \<open>sensor-alert\<close>, in the handler and in the simulator; every \<open>sensor-alert\<close> that is
  emitted carries the status low or high.
\<close>

theorem normal_never_alerts:
  "(\<forall>a \<in> set (alerts (sys_db (run init_system ops))).
      a_status a = ''low'' \<or> a_status a = ''high'') \<and>
   (req_name req = Some name \<and> withinAlertRange name (toNumber (req_value req)) = None \<and>
    post_reading rt s req = (s', evs, resp) \<longrightarrow>
      alerts s' = alerts s \<and> (\<forall>p. SensorAlert p \<notin> set evs)) \<and>
   (req_name req = Some name \<and> map_of THRESHOLDS name = None \<and>
    post_reading rt s req = (s', evs, resp) \<longrightarrow>
      alerts s' = alerts s \<and> (\<forall>p. SensorAlert p \<notin> set evs)) \<and>
   (withinAlertRange name (sim_candidate env s name thr) = None \<and>
    simulate_sensor env s name thr = (s', evs) \<longrightarrow>
      alerts s' = alerts s \<and> (\<forall>p. SensorAlert p \<notin> set evs)) \<and>
   (post_reading rt s req = (s', evs, resp) \<and> SensorAlert p \<in> set evs \<longrightarrow>
      ev_status p = ''low'' \<or> ev_status p = ''high'')"
proof -
  have reach: "\<forall>a \<in> set (alerts (sys_db (run init_system ops))).
      a_status a = ''low'' \<or> a_status a = ''high''"
    using db_inv_reachable [of ops] by (simp add: db_inv_def)
  have normal: "alerts s' = alerts s \<and> (\<forall>p. SensorAlert p \<notin> set evs)"
    if "req_name req = Some name \<and> withinAlertRange name (toNumber (req_value req)) = None \<and>
        post_reading rt s req = (s', evs, resp)"
    using that post_reading_normal by blast
  have unmonitored: "alerts s' = alerts s \<and> (\<forall>p. SensorAlert p \<notin> set evs)"
    if "req_name req = Some name \<and> map_of THRESHOLDS name = None \<and>
        post_reading rt s req = (s', evs, resp)"
    using that post_reading_normal unmonitored_is_normal by blast
  have sim: "alerts s' = alerts s \<and> (\<forall>p. SensorAlert p \<notin> set evs)"
    if "withinAlertRange name (sim_candidate env s name thr) = None \<and>
        simulate_sensor env s name thr = (s', evs)"
    using that simulate_sensor_ingest ingest_normal by blast
  have status: "ev_status p = ''low'' \<or> ev_status p = ''high''"
    if h: "post_reading rt s req = (s', evs, resp) \<and> SensorAlert p \<in> set evs"
  proof -
    from h have "evs \<noteq> []" by auto
    with h obtain nm r where
      "ingest rt s nm (toNumber (req_value req)) (unit_or_null (req_unit req)) = (s', evs, r)"
      using post_reading_events_ingest by blast
    with h show ?thesis using ingest_alert_status by blast
  qed
  from reach normal unmonitored sim status show ?thesis
    by blast
qed

theorem normal_never_alerts_witness:
  "alerts (sys_db (run init_system [Post (runtime_at 1000) (temp_request (JNumber (Finite 30)))])) =
     [temp_alert 30 ''high'' 1000000] \<and>
   (a_status (temp_alert 30 ''high'' 1000000) = ''low'' \<or>
    a_status (temp_alert 30 ''high'' 1000000) = ''high'') \<and>
   withinAlertRange ''Temperature Sensor 1'' (toNumber (JNumber (Finite 22))) = None \<and>
   alerts (fst (post_reading (runtime_at 1000) db_after_30 (temp_request (JNumber (Finite 22))))) =
     alerts db_after_30 \<and>
   map_of THRESHOLDS ''Boiler'' = None \<and>
   alerts (fst (post_reading (runtime_at 1000) db_after_30
                  (boiler_request (JNumber (Finite 1000000))))) = alerts db_after_30 \<and>
   withinAlertRange ''Temperature Sensor 1''
     (sim_candidate (sim_env_at 1000 (1 / 2) (1 / 2)) init_db ''Temperature Sensor 1''
        \<lparr>thr_min = 18, thr_max = 28\<rparr>) = None \<and>
   alerts (fst (simulate_sensor (sim_env_at 1000 (1 / 2) (1 / 2)) init_db ''Temperature Sensor 1''
                  \<lparr>thr_min = 18, thr_max = 28\<rparr>)) = alerts init_db \<and>
   SensorAlert \<lparr>ev_sensor = ''Temperature Sensor 1'', ev_value = 30, ev_status = ''high'',
                 ev_time = 1000\<rparr>
     \<in> set (fst (snd (post_reading (runtime_at 1000) init_db (temp_request (JNumber (Finite 30)))))) \<and>
   (ev_status \<lparr>ev_sensor = ''Temperature Sensor 1'', ev_value = 30, ev_status = ''high'',
                ev_time = 1000\<rparr> = ''low'' \<or>
    ev_status \<lparr>ev_sensor = ''Temperature Sensor 1'', ev_value = 30, ev_status = ''high'',
                ev_time = 1000\<rparr> = ''high'')"
proof -
  let ?ops = "[Post (runtime_at 1000) (temp_request (JNumber (Finite 30)))]"
  let ?r22 = "temp_request (JNumber (Finite 22))"
  let ?o22 = "post_reading (runtime_at 1000) db_after_30 ?r22"
  let ?rb = "boiler_request (JNumber (Finite 1000000))"
  let ?ob = "post_reading (runtime_at 1000) db_after_30 ?rb"
  let ?thr = "\<lparr>thr_min = 18, thr_max = 28\<rparr>"
  let ?sim = "simulate_sensor (sim_env_at 1000 (1 / 2) (1 / 2)) init_db ''Temperature Sensor 1'' ?thr"
  let ?o30 = "post_reading (runtime_at 1000) init_db (temp_request (JNumber (Finite 30)))"
  let ?p = "\<lparr>ev_sensor = ''Temperature Sensor 1'', ev_value = 30, ev_status = ''high'',
             ev_time = 1000\<rparr>"
  have al: "alerts (sys_db (run init_system ?ops)) = [temp_alert 30 ''high'' 1000000]"
    by (simp add: run_post_30 db_after_30_def)
  have n22: "withinAlertRange ''Temperature Sensor 1'' (toNumber (req_value ?r22)) = None"
    by (simp add: withinAlertRange_def THRESHOLDS_def toNumber_def temp_request_sel)
  have nb: "map_of THRESHOLDS ''Boiler'' = None"
    by (simp add: THRESHOLDS_def)
  have rb: "req_name ?rb = Some ''Boiler''"
    by (simp add: boiler_request_def)
  have o22: "?o22 = (fst ?o22, fst (snd ?o22), snd (snd ?o22))"
    and ob: "?ob = (fst ?ob, fst (snd ?ob), snd (snd ?ob))"
    and o30: "?o30 = (fst ?o30, fst (snd ?o30), snd (snd ?o30))"
    and sim: "?sim = (fst ?sim, snd ?sim)"
    by simp_all
  from normal_never_alerts [where ops = "?ops", THEN conjunct1] al
  have a: "a_status (temp_alert 30 ''high'' 1000000) = ''low'' \<or>
      a_status (temp_alert 30 ''high'' 1000000) = ''high''"
    by simp
  from normal_never_alerts [where req = "?r22" and name = "''Temperature Sensor 1''"
      and rt = "runtime_at 1000" and s = db_after_30 and s' = "fst ?o22"
      and evs = "fst (snd ?o22)" and resp = "snd (snd ?o22)",
      THEN conjunct2, THEN conjunct1, rule_format, OF conjI, OF temp_request_sel(1) conjI,
      OF n22 o22]
  have b: "alerts (fst ?o22) = alerts db_after_30"
    by blast
  from normal_never_alerts [where req = "?rb" and name = "''Boiler''"
      and rt = "runtime_at 1000" and s = db_after_30 and s' = "fst ?ob"
      and evs = "fst (snd ?ob)" and resp = "snd (snd ?ob)",
      THEN conjunct2, THEN conjunct2, THEN conjunct1, rule_format, OF conjI, OF rb conjI,
      OF nb ob]
  have c: "alerts (fst ?ob) = alerts db_after_30"
    by blast
  from normal_never_alerts [where name = "''Temperature Sensor 1''"
      and env = "sim_env_at 1000 (1 / 2) (1 / 2)" and s = init_db and thr = "?thr" and s' = "fst ?sim"
      and evs = "snd ?sim",
      THEN conjunct2, THEN conjunct2, THEN conjunct2, THEN conjunct1, rule_format, OF conjI,
      OF sim_normal_example sim]
  have d: "alerts (fst ?sim) = alerts init_db"
    by blast
  have mem: "SensorAlert ?p \<in> set (fst (snd ?o30))"
    by (simp add: scenario_1)
  from normal_never_alerts [where req = "temp_request (JNumber (Finite 30))"
      and rt = "runtime_at 1000" and s = init_db and s' = "fst ?o30"
      and evs = "fst (snd ?o30)" and resp = "snd (snd ?o30)" and p = "?p",
      THEN conjunct2, THEN conjunct2, THEN conjunct2, THEN conjunct2, rule_format, OF conjI,
      OF o30 mem]
  have e: "ev_status ?p = ''low'' \<or> ev_status ?p = ''high''" .
  from n22 have n22': "withinAlertRange ''Temperature Sensor 1'' (toNumber (JNumber (Finite 22))) = None"
    by (simp add: temp_request_sel)
  show ?thesis
    using al a n22' b nb c sim_normal_example d mem e by blast
qed

section \<open>Values that are not finite numbers\<close>

text \<open>
  Claim C2, as the code has it. A defined value that \<open>Number()\<close> does not turn into a
  finite number (NaN, an infinity, a non-numeric payload) is not refused: \<open>toNumber\<close>
  makes it 0, and when no query throws a reading of value 0 is appended, the snapshot of
  the sensor is set to 0 and the call answers 201 with that row. The handler answers 400
  exactly when the name is missing or empty or the value is \<open>undefined\<close>, and only then
  are the store and the event stream sure to be untouched.
\<close>

theorem nonfinite_value_stored_as_zero:
  "(req_name req = Some name \<and> name \<noteq> [] \<and> req_value req \<noteq> JUndefined \<and>
    \<not> Number_isFinite (Number_js (req_value req)) \<and> store_ok rt \<and>
    post_reading rt s req = (s', evs, resp) \<longrightarrow>
      toNumber (req_value req) = 0 \<and>
      sensor_data s' = sensor_data s @
        [\<lparr>sd_sensor_name = name, sd_value = 0, sd_unit = unit_or_null (req_unit req),
          recorded_at = now_reading rt\<rparr>] \<and>
      (\<exists>row. row \<in> set (sensors s') \<and> s_name row = name \<and> s_value row = 0 \<and>
         resp = Response 201 (RowBody row))) \<and>
   (post_reading rt s req = (s', evs, resp) \<longrightarrow>
      (status_code resp = 400 \<longleftrightarrow>
         (req_name req = None \<or> req_name req = Some [] \<or> req_value req = JUndefined)) \<and>
      (status_code resp = 400 \<longrightarrow> s' = s \<and> evs = []))"
proof (intro conjI impI)
  assume h: "req_name req = Some name \<and> name \<noteq> [] \<and> req_value req \<noteq> JUndefined \<and>
    \<not> Number_isFinite (Number_js (req_value req)) \<and> store_ok rt \<and>
    post_reading rt s req = (s', evs, resp)"
  then show zero: "toNumber (req_value req) = 0"
    by (simp add: toNumber_nonfinite)
  let ?u = "unit_or_null (req_unit req)"
  from h obtain r where ing: "ingest rt s name 0 ?u = (s', evs, r)"
    using post_reading_ingest [of req name rt s s' evs resp] zero by auto
  from h have ok: "store_ok rt" by simp
  note w = ingest_store_ok_written [OF ok ing]
  show "sensor_data s' = sensor_data s @
        [\<lparr>sd_sensor_name = name, sd_value = 0, sd_unit = ?u, recorded_at = now_reading rt\<rparr>]"
    using w by (simp add: sensor_data_written)
  have resp: "resp = Response 201 (RowBody (snd (written rt s name 0 ?u)))"
  proof -
    from h have r1: "req_name req = Some name" and r2: "name \<noteq> []"
      and r3: "req_value req \<noteq> JUndefined"
      by simp_all
    from h ing w zero show ?thesis
      by (simp add: post_reading_valid [OF r1 r2 r3])
  qed
  show "\<exists>row. row \<in> set (sensors s') \<and> s_name row = name \<and> s_value row = 0 \<and>
         resp = Response 201 (RowBody row)"
    using w resp written_row [of rt s name 0 ?u] written_row_in [of rt s name 0 ?u]
    by auto
next
  assume "post_reading rt s req = (s', evs, resp)"
  then show "status_code resp = 400 \<longleftrightarrow>
         (req_name req = None \<or> req_name req = Some [] \<or> req_value req = JUndefined)"
    by (rule post_reading_400_iff)
next
  assume run: "post_reading rt s req = (s', evs, resp)" and "status_code resp = 400"
  then have "req_name req = None \<or> req_name req = Some [] \<or> req_value req = JUndefined"
    using post_reading_400_iff by blast
  from post_reading_rejected [OF this, of rt s] run show "s' = s" and "evs = []"
    by simp_all
qed

text \<open>
  The claim as the spec states it fails at the payload \<open>"abc"\<close> (\<open>Number("abc")\<close> is NaN):
  the call answers 201 and the store holds a reading and a snapshot of value 0.
\<close>

theorem nonfinite_value_counterexample:
  "\<not> Number_isFinite (Number_js (JOther NaN)) \<and>
   post_reading (runtime_at 1000) init_db (temp_request (JOther NaN)) =
     (\<lparr>sensor_data =
          [\<lparr>sd_sensor_name = ''Temperature Sensor 1'', sd_value = 0, sd_unit = Some ''C'',
            recorded_at = 1000000\<rparr>],
        sensors = [temp_row 0 1000000],
        sensors_id_seq = 1,
        alerts = [temp_alert 0 ''low'' 1000000]\<rparr>,
      [SensorUpdated (temp_row 0 1000000),
       SensorAlert \<lparr>ev_sensor = ''Temperature Sensor 1'', ev_value = 0, ev_status = ''low'',
                     ev_time = 1000\<rparr>],
      Response 201 (RowBody (temp_row 0 1000000)))"
  by (simp add: post_reading_def temp_request_def ingest_def runtime_at_def init_db_def
        toNumber_def unit_or_null_def insert_reading_def upsert_sensor_def alert_branch_def
        withinAlertRange_def THRESHOLDS_def last_alert_def order_by_triggered_at_desc_def
        shouldInsert_def insert_alert_def temp_row_def temp_alert_def Let_def)

theorem nonfinite_value_stored_as_zero_witness:
  "\<not> Number_isFinite (Number_js (JNumber PosInf)) \<and> store_ok (runtime_at 1000) \<and>
   toNumber (JNumber PosInf) = 0 \<and>
   sensor_data (fst (post_reading (runtime_at 1000) init_db (temp_request (JNumber PosInf)))) =
     [\<lparr>sd_sensor_name = ''Temperature Sensor 1'', sd_value = 0, sd_unit = Some ''C'',
       recorded_at = 1000000\<rparr>] \<and>
   status_code (snd (snd (post_reading (runtime_at 1000) init_db (temp_request (JNumber PosInf))))) \<noteq> 400 \<and>
   status_code (snd (snd (post_reading (runtime_at 1000) db_after_30 (temp_request JUndefined)))) = 400 \<and>
   fst (post_reading (runtime_at 1000) db_after_30 (temp_request JUndefined)) = db_after_30 \<and>
   fst (snd (post_reading (runtime_at 1000) db_after_30 (temp_request JUndefined))) = []"
proof -
  let ?req = "temp_request (JNumber PosInf)"
  let ?out = "post_reading (runtime_at 1000) init_db ?req"
  let ?rej = "post_reading (runtime_at 1000) db_after_30 (temp_request JUndefined)"
  have out: "?out = (fst ?out, fst (snd ?out), snd (snd ?out))"
    and rej: "?rej = (fst ?rej, fst (snd ?rej), snd (snd ?rej))"
    by simp_all
  have hyp: "req_name ?req = Some ''Temperature Sensor 1'' \<and> ''Temperature Sensor 1'' \<noteq> [] \<and>
      req_value ?req \<noteq> JUndefined \<and> \<not> Number_isFinite (Number_js (req_value ?req)) \<and>
      store_ok (runtime_at 1000) \<and> ?out = (fst ?out, fst (snd ?out), snd (snd ?out))"
    by (simp add: temp_request_sel store_ok_runtime_at)
  note inst = nonfinite_value_stored_as_zero
      [where req = "?req" and name = "''Temperature Sensor 1''" and rt = "runtime_at 1000"
         and s = init_db and s' = "fst ?out" and evs = "fst (snd ?out)" and resp = "snd (snd ?out)"]
  from inst [THEN conjunct1, rule_format, OF hyp]
  have a: "toNumber (req_value ?req) = 0"
    and b: "sensor_data (fst ?out) = sensor_data init_db @
        [\<lparr>sd_sensor_name = ''Temperature Sensor 1'', sd_value = 0,
          sd_unit = unit_or_null (req_unit ?req), recorded_at = now_reading (runtime_at 1000)\<rparr>]"
    by blast+
  from inst [THEN conjunct2, rule_format, OF out]
  have c: "status_code (snd (snd ?out)) = 400 \<longleftrightarrow>
      (req_name ?req = None \<or> req_name ?req = Some [] \<or> req_value ?req = JUndefined)"
    by blast
  have c': "status_code (snd (snd ?out)) \<noteq> 400"
    unfolding c by (simp add: temp_request_sel)
  have b': "sensor_data (fst ?out) =
     [\<lparr>sd_sensor_name = ''Temperature Sensor 1'', sd_value = 0, sd_unit = Some ''C'',
       recorded_at = 1000000\<rparr>]"
    unfolding b by (simp add: temp_request_sel init_db_def unit_or_null_def runtime_at_def)
  have a': "toNumber (JNumber PosInf) = 0"
    using a by (simp add: temp_request_sel)
  have d: "\<not> Number_isFinite (Number_js (JNumber PosInf))"
    by simp
  note inst' = nonfinite_value_stored_as_zero
      [where req = "temp_request JUndefined" and rt = "runtime_at 1000"
         and s = db_after_30 and s' = "fst ?rej" and evs = "fst (snd ?rej)"
         and resp = "snd (snd ?rej)", THEN conjunct2, rule_format, OF rej]
  from inst' have e: "status_code (snd (snd ?rej)) = 400"
    by (simp add: temp_request_sel)
  with inst' have f: "fst ?rej = db_after_30" "fst (snd ?rej) = []"
    by blast+
  show ?thesis
    using a' b' c' d e f store_ok_runtime_at [of 1000] by blast
qed

section \<open>A failure in the alert branch\<close>

text \<open>
  Claim C3, as the code has it. When the reading insert and the snapshot upsert succeed
  and a later query of the alert branch throws (the lookup of the last alert, or the
  insert of the alert row), the two writes stay: exactly one reading is appended and the
  snapshot is upserted, no alert row is added, and \<open>sensor-updated\<close> is the only event.
  The call does not answer success: the \<open>catch\<close> of the handler answers 500.
\<close>

theorem alert_failure_keeps_reading:
  assumes req: "req_name req = Some name" "name \<noteq> []" "req_value req \<noteq> JUndefined"
    and writes: "\<not> fail_insert_reading rt" "\<not> fail_upsert rt"
    and st: "withinAlertRange name (toNumber (req_value req)) = Some st"
    and fails: "fail_last_alert rt \<or>
       (shouldInsert (date_now rt) name (toNumber (req_value req)) st (last_alert s name) \<and>
        fail_insert_alert rt)"
    and run: "post_reading rt s req = (s', evs, resp)"
  shows "s' = fst (written rt s name (toNumber (req_value req)) (unit_or_null (req_unit req))) \<and>
         sensor_data s' = sensor_data s @
           [\<lparr>sd_sensor_name = name, sd_value = toNumber (req_value req),
             sd_unit = unit_or_null (req_unit req), recorded_at = now_reading rt\<rparr>] \<and>
         snd (written rt s name (toNumber (req_value req)) (unit_or_null (req_unit req)))
           \<in> set (sensors s') \<and>
         alerts s' = alerts s \<and>
         evs = [SensorUpdated
                  (snd (written rt s name (toNumber (req_value req)) (unit_or_null (req_unit req))))] \<and>
         resp = Response 500 (ErrorBody ''Internal server error'')"
proof -
  let ?val = "toNumber (req_value req)"
  let ?u = "unit_or_null (req_unit req)"
  have la: "last_alert (fst (written rt s name ?val ?u)) name = last_alert s name"
    by (rule last_alert_cong) simp
  have "alert_branch rt (fst (written rt s name ?val ?u)) name ?val = Inl ()"
    using st fails la by (auto simp: alert_branch_def)
  then have "ingest rt s name ?val ?u =
      (fst (written rt s name ?val ?u), [SensorUpdated (snd (written rt s name ?val ?u))], None)"
    using writes by (simp add: ingest_def written_def Let_def split_beta)
  then have "s' = fst (written rt s name ?val ?u)"
    and "evs = [SensorUpdated (snd (written rt s name ?val ?u))]"
    and "resp = internal_error"
    using run by (simp_all add: post_reading_valid [OF req])
  then show ?thesis
    by (simp add: sensor_data_written written_row_in internal_error_def)
qed

text \<open>
  The claim as the spec states it fails when the lookup of the last alert throws after the
  value 30 was written: the reading and the snapshot are there, and the answer is 500.
\<close>

theorem alert_failure_counterexample:
  "post_reading ((runtime_at 1000)\<lparr>fail_last_alert := True\<rparr>) init_db
       (temp_request (JNumber (Finite 30))) =
     (\<lparr>sensor_data =
          [\<lparr>sd_sensor_name = ''Temperature Sensor 1'', sd_value = 30, sd_unit = Some ''C'',
            recorded_at = 1000000\<rparr>],
        sensors = [temp_row 30 1000000],
        sensors_id_seq = 1,
        alerts = []\<rparr>,
      [SensorUpdated (temp_row 30 1000000)],
      Response 500 (ErrorBody ''Internal server error''))"
  by (simp add: post_reading_def temp_request_def ingest_def runtime_at_def init_db_def
        toNumber_def unit_or_null_def insert_reading_def upsert_sensor_def alert_branch_def
        withinAlertRange_def THRESHOLDS_def internal_error_def temp_row_def Let_def)

theorem alert_failure_keeps_reading_witness:
  "\<not> fail_insert_reading ((runtime_at 1000)\<lparr>fail_last_alert := True\<rparr>) \<and>
   \<not> fail_upsert ((runtime_at 1000)\<lparr>fail_last_alert := True\<rparr>) \<and>
   fail_last_alert ((runtime_at 1000)\<lparr>fail_last_alert := True\<rparr>) \<and>
   withinAlertRange ''Temperature Sensor 1'' (toNumber (JNumber (Finite 30))) = Some ''high'' \<and>
   sensor_data (fst (post_reading ((runtime_at 1000)\<lparr>fail_last_alert := True\<rparr>) init_db
        (temp_request (JNumber (Finite 30))))) =
     [\<lparr>sd_sensor_name = ''Temperature Sensor 1'', sd_value = 30, sd_unit = Some ''C'',
       recorded_at = 1000000\<rparr>] \<and>
   alerts (fst (post_reading ((runtime_at 1000)\<lparr>fail_last_alert := True\<rparr>) init_db
        (temp_request (JNumber (Finite 30))))) = [] \<and>
   snd (snd (post_reading ((runtime_at 1000)\<lparr>fail_last_alert := True\<rparr>) init_db
        (temp_request (JNumber (Finite 30))))) = Response 500 (ErrorBody ''Internal server error'')"
proof -
  let ?rt = "(runtime_at 1000)\<lparr>fail_last_alert := True\<rparr>"
  let ?req = "temp_request (JNumber (Finite 30))"
  let ?out = "post_reading ?rt init_db ?req"
  have out: "?out = (fst ?out, fst (snd ?out), snd (snd ?out))"
    by simp
  have name: "''Temperature Sensor 1'' \<noteq> []"
    by simp
  have undef: "req_value ?req \<noteq> JUndefined"
    by (simp add: temp_request_sel)
  have w1: "\<not> fail_insert_reading ?rt" and w2: "\<not> fail_upsert ?rt" and f: "fail_last_alert ?rt"
    by (simp_all add: runtime_at_def)
  have st: "withinAlertRange ''Temperature Sensor 1'' (toNumber (req_value ?req)) = Some ''high''"
    by (simp add: withinAlertRange_def THRESHOLDS_def toNumber_def temp_request_sel)
  from alert_failure_keeps_reading [OF temp_request_sel(1) name undef w1 w2 st disjI1 out, OF f]
  have a: "sensor_data (fst ?out) = sensor_data init_db @
           [\<lparr>sd_sensor_name = ''Temperature Sensor 1'', sd_value = toNumber (req_value ?req),
             sd_unit = unit_or_null (req_unit ?req), recorded_at = now_reading ?rt\<rparr>]"
    and b: "alerts (fst ?out) = alerts init_db"
    and c: "snd (snd ?out) = Response 500 (ErrorBody ''Internal server error'')"
    by blast+
  have a': "sensor_data (fst ?out) =
     [\<lparr>sd_sensor_name = ''Temperature Sensor 1'', sd_value = 30, sd_unit = Some ''C'',
       recorded_at = 1000000\<rparr>]"
    unfolding a
    by (simp add: temp_request_sel init_db_def unit_or_null_def runtime_at_def toNumber_def)
  have b': "alerts (fst ?out) = []"
    unfolding b by (simp add: init_db_def)
  from st have st': "withinAlertRange ''Temperature Sensor 1'' (toNumber (JNumber (Finite 30))) = Some ''high''"
    by (simp add: temp_request_sel)
  show ?thesis
    using w1 w2 f st' a' b' c by blast
qed

section \<open>The update is emitted before the alert\<close>

text \<open>
  Claim C7. In one call of the handler the events are none, the \<open>sensor-updated\<close> of the
  upserted row alone, or that \<open>sensor-updated\<close> followed by the \<open>sensor-alert\<close> of the same
  sensor and value, and the row is in the store the call leaves: the alert is never
  emitted before the snapshot was written and published. Every connected socket is sent
  the events in that order. In one run of \<open>simulateOnce\<close> every \<open>sensor-alert\<close> comes
  right after the \<open>sensor-updated\<close> of the same sensor and value.
\<close>

theorem update_before_alert:
  "(post_reading rt s req = (s', evs, resp) \<longrightarrow>
      (evs = [] \<or>
       (\<exists>row. row \<in> set (sensors s') \<and>
          (evs = [SensorUpdated row] \<or>
           (\<exists>p. evs = [SensorUpdated row, SensorAlert p] \<and>
              ev_sensor p = s_name row \<and> ev_value p = s_value row))))) \<and>
   (inbox y k = Some sent \<longrightarrow>
      inbox (step y (Post rt req)) k =
        Some (sent @ fst (snd (post_reading rt (sys_db y) req)))) \<and>
   (simulateOnce env s = (s', evs') \<longrightarrow> update_precedes_alert evs')"
proof (intro conjI impI)
  assume "post_reading rt s req = (s', evs, resp)"
  then show "evs = [] \<or>
       (\<exists>row. row \<in> set (sensors s') \<and>
          (evs = [SensorUpdated row] \<or>
           (\<exists>p. evs = [SensorUpdated row, SensorAlert p] \<and>
              ev_sensor p = s_name row \<and> ev_value p = s_value row)))"
    by (rule post_reading_events)
next
  assume "inbox y k = Some sent"
  then show "inbox (step y (Post rt req)) k =
        Some (sent @ fst (snd (post_reading rt (sys_db y) req)))"
    by (simp add: io_emit_inbox split: prod.splits)
next
  assume "simulateOnce env s = (s', evs')"
  then show "update_precedes_alert evs'"
    unfolding simulateOnce_def by (rule simulate_names_update_precedes_alert)
qed

theorem update_before_alert_witness:
  "fst (snd (post_reading (runtime_at 1000) init_db (temp_request (JNumber (Finite 30))))) =
     [SensorUpdated (temp_row 30 1000000),
      SensorAlert \<lparr>ev_sensor = ''Temperature Sensor 1'', ev_value = 30, ev_status = ''high'',
                    ev_time = 1000\<rparr>] \<and>
   temp_row 30 1000000 \<in> set (sensors (fst (post_reading (runtime_at 1000) init_db
                                            (temp_request (JNumber (Finite 30)))))) \<and>
   inbox (step init_system (Connect 7 (conn_ok (\<lambda>n. n)))) 7 = Some [AllSensors [], AllAlerts []] \<and>
   inbox (step (step init_system (Connect 7 (conn_ok (\<lambda>n. n))))
            (Post (runtime_at 1000) (temp_request (JNumber (Finite 30))))) 7 =
     Some [AllSensors [], AllAlerts [], SensorUpdated (temp_row 30 1000000),
           SensorAlert \<lparr>ev_sensor = ''Temperature Sensor 1'', ev_value = 30,
                         ev_status = ''high'', ev_time = 1000\<rparr>] \<and>
   length (snd (simulateOnce (\<lambda>n. sim_env_at 1000 (1 / 8) (1 / 4)) init_db)) = 8 \<and>
   update_precedes_alert (snd (simulateOnce (\<lambda>n. sim_env_at 1000 (1 / 8) (1 / 4)) init_db))"
proof -
  let ?req = "temp_request (JNumber (Finite 30))"
  let ?out = "post_reading (runtime_at 1000) init_db ?req"
  let ?sim = "simulateOnce (\<lambda>n. sim_env_at 1000 (1 / 8) (1 / 4)) init_db"
  let ?y = "step init_system (Connect 7 (conn_ok (\<lambda>n. n)))"
  have out: "?out = (fst ?out, fst (snd ?out), snd (snd ?out))"
    and sim: "?sim = (fst ?sim, snd ?sim)"
    by simp_all
  have evs: "fst (snd ?out) =
     [SensorUpdated (temp_row 30 1000000),
      SensorAlert \<lparr>ev_sensor = ''Temperature Sensor 1'', ev_value = 30, ev_status = ''high'',
                    ev_time = 1000\<rparr>]"
    by (simp add: scenario_1)
  from update_before_alert [THEN conjunct1, rule_format, OF out]
  have row: "temp_row 30 1000000 \<in> set (sensors (fst ?out))"
    unfolding evs by auto
  have sent: "inbox ?y 7 = Some [AllSensors [], AllAlerts []]"
    and db: "sys_db ?y = init_db"
    by (simp_all add: init_system_def on_connection_def conn_ok_def getLatestSensors_def
          order_by_triggered_at_desc_def init_db_def)
  from update_before_alert [THEN conjunct2, THEN conjunct1, rule_format, OF sent]
  have "inbox (step ?y (Post (runtime_at 1000) ?req)) 7 =
      Some ([AllSensors [], AllAlerts []] @ fst (snd (post_reading (runtime_at 1000) (sys_db ?y) ?req)))" .
  then have got: "inbox (step ?y (Post (runtime_at 1000) ?req)) 7 =
     Some [AllSensors [], AllAlerts [], SensorUpdated (temp_row 30 1000000),
           SensorAlert \<lparr>ev_sensor = ''Temperature Sensor 1'', ev_value = 30,
                         ev_status = ''high'', ev_time = 1000\<rparr>]"
    unfolding db evs by simp
  from update_before_alert [THEN conjunct2, THEN conjunct2, rule_format, OF sim]
  have ord: "update_precedes_alert (snd ?sim)" .
  have len: "length (snd ?sim) = 8"
    by (simp add: simulate_example)
  show ?thesis
    using evs row sent got len ord by blast
qed

section \<open>The replay on connect\<close>

text \<open>
  Claim C8. When a socket connects to a reachable server and the two queries of the
  connection handler succeed, the socket is sent first \<open>all-sensors\<close> with every row of
  \<open>sensors\<close>, one per sensor name, by ascending name in the collation of the database
  (names compare as their collation keys do, and bytewise when the keys are equal), then
  \<open>all-alerts\<close> with the first 50 alert rows in descending order of \<open>triggered_at\<close>, each
  as its sensor name, the double of its value, its status and the millisecond of its
  stamp; whatever runs afterwards, as long as the socket stays connected, adds only
  \<open>sensor-updated\<close>, \<open>sensor-alert\<close> and \<open>alerts-cleared\<close> events behind these two.
\<close>

theorem connect_replay:
  assumes fresh: "inbox (run init_system ops) k = None"
    and ok: "\<not> fail_all_sensors ce" "\<not> fail_all_alerts ce"
  shows "\<exists>rows srt.
     inbox (step (run init_system ops) (Connect k ce)) k =
       Some [AllSensors rows,
             AllAlerts (map (\<lambda>a. \<lparr>ev_sensor = a_sensor_name a, ev_value = to_double (a_value a),
                                    ev_status = a_status a, ev_time = triggered_at a div 1000\<rparr>)
                          (take 50 srt))] \<and>
     mset rows = mset (sensors (sys_db (run init_system ops))) \<and>
     distinct (map s_name rows) \<and>
     sorted_wrt (\<lambda>a b. collation_key ce (s_name a) < collation_key ce (s_name b) \<or>
                        (collation_key ce (s_name a) = collation_key ce (s_name b) \<and>
                         s_name a \<le> s_name b)) rows \<and>
     mset srt = mset (alerts (sys_db (run init_system ops))) \<and>
     sorted_wrt (\<lambda>a b. triggered_at a \<ge> triggered_at b) srt \<and>
     (\<forall>ops'. (\<forall>x \<in> set ops'. \<not> touches_socket k x) \<longrightarrow>
        (\<exists>ds. inbox (run (step (run init_system ops) (Connect k ce)) ops') k =
             Some ([AllSensors rows,
                    AllAlerts (map (\<lambda>a. \<lparr>ev_sensor = a_sensor_name a,
                                           ev_value = to_double (a_value a),
                                           ev_status = a_status a,
                                           ev_time = triggered_at a div 1000\<rparr>)
                                 (take 50 srt))] @ ds) \<and>
           (\<forall>e \<in> set ds. is_delta e)))"
proof -
  let ?y = "run init_system ops"
  let ?rows = "getLatestSensors (collation_key ce) (sys_db ?y)"
  let ?srt = "order_by_triggered_at_desc (alerts (sys_db ?y))"
  let ?pay = "\<lambda>a. \<lparr>ev_sensor = a_sensor_name a, ev_value = to_double (a_value a),
                    ev_status = a_status a, ev_time = triggered_at a div 1000\<rparr>"
  let ?replay = "[AllSensors ?rows, AllAlerts (map ?pay (take 50 ?srt))]"
  have pay: "alert_payload = ?pay"
    by (rule ext) (simp add: alert_payload_def)
  have sent: "inbox (step ?y (Connect k ce)) k = Some ?replay"
    using fresh ok by (simp add: on_connection_def pay)
  have "distinct (map s_name (sensors (sys_db ?y)))"
    using db_inv_reachable [of ops] by (simp add: db_inv_def)
  then have dist: "distinct (map s_name ?rows)"
    by (rule getLatestSensors_distinct)
  have later: "\<forall>ops'. (\<forall>x \<in> set ops'. \<not> touches_socket k x) \<longrightarrow>
        (\<exists>ds. inbox (run (step ?y (Connect k ce)) ops') k = Some (?replay @ ds) \<and>
           (\<forall>e \<in> set ds. is_delta e))"
    using run_inbox_deltas [OF sent] by blast
  have perm: "mset ?rows = mset (sensors (sys_db ?y))"
    using getLatestSensors_props by blast
  note ord = getLatestSensors_sorted [of "collation_key ce" "sys_db ?y"]
  note desc = order_by_triggered_at_desc_props [of "alerts (sys_db ?y)"]
  from sent perm dist ord desc later show ?thesis
    by blast
qed

theorem connect_replay_witness:
  "inbox (run init_system replay_ops) 7 = None \<and>
   inbox (step (run init_system replay_ops) (Connect 7 (conn_ok caseless_key))) 7 =
     Some [AllSensors
             [\<lparr>s_id = 2, s_name = ''b'', s_value = 1, s_unit = None, updated_at = 2000000\<rparr>,
              \<lparr>s_id = 3, s_name = ''B'', s_value = 2, s_unit = None, updated_at = 3000000\<rparr>,
              \<lparr>s_id = 4, s_name = ''Humidity Sensor 1'', s_value = 20, s_unit = None,
                updated_at = 4000000\<rparr>,
              temp_row (to_double (3201 / 100)) 1000000],
           AllAlerts
             [\<lparr>ev_sensor = ''Humidity Sensor 1'', ev_value = 20, ev_status = ''low'',
                ev_time = 4000\<rparr>,
              \<lparr>ev_sensor = ''Temperature Sensor 1'', ev_value = to_double (3201 / 100),
                ev_status = ''high'', ev_time = 1000\<rparr>]] \<and>
   inbox (step (run init_system replay_ops) (Connect 7 (conn_ok (\<lambda>n. n)))) 7 =
     Some [AllSensors
             [\<lparr>s_id = 3, s_name = ''B'', s_value = 2, s_unit = None, updated_at = 3000000\<rparr>,
              \<lparr>s_id = 4, s_name = ''Humidity Sensor 1'', s_value = 20, s_unit = None,
                updated_at = 4000000\<rparr>,
              temp_row (to_double (3201 / 100)) 1000000,
              \<lparr>s_id = 2, s_name = ''b'', s_value = 1, s_unit = None, updated_at = 2000000\<rparr>],
           AllAlerts
             [\<lparr>ev_sensor = ''Humidity Sensor 1'', ev_value = 20, ev_status = ''low'',
                ev_time = 4000\<rparr>,
              \<lparr>ev_sensor = ''Temperature Sensor 1'', ev_value = to_double (3201 / 100),
                ev_status = ''high'', ev_time = 1000\<rparr>]] \<and>
   (\<exists>ds. inbox (run (step (run init_system replay_ops) (Connect 7 (conn_ok caseless_key)))
                 [Post (runtime_at 5000) (temp_request (JNumber (Finite 15)))]) 7 =
            Some ([AllSensors
                     [\<lparr>s_id = 2, s_name = ''b'', s_value = 1, s_unit = None,
                        updated_at = 2000000\<rparr>,
                      \<lparr>s_id = 3, s_name = ''B'', s_value = 2, s_unit = None,
                        updated_at = 3000000\<rparr>,
                      \<lparr>s_id = 4, s_name = ''Humidity Sensor 1'', s_value = 20, s_unit = None,
                        updated_at = 4000000\<rparr>,
                      temp_row (to_double (3201 / 100)) 1000000],
                   AllAlerts
                     [\<lparr>ev_sensor = ''Humidity Sensor 1'', ev_value = 20, ev_status = ''low'',
                        ev_time = 4000\<rparr>,
                      \<lparr>ev_sensor = ''Temperature Sensor 1'', ev_value = to_double (3201 / 100),
                        ev_status = ''high'', ev_time = 1000\<rparr>]] @ ds) \<and>
          list_all is_delta ds)"
proof -
  let ?y = "run init_system replay_ops"
  let ?ce = "conn_ok caseless_key"
  let ?later = "[Post (runtime_at 5000) (temp_request (JNumber (Finite 15)))]"
  let ?alerts = "AllAlerts
             [\<lparr>ev_sensor = ''Humidity Sensor 1'', ev_value = 20, ev_status = ''low'',
                ev_time = 4000\<rparr>,
              \<lparr>ev_sensor = ''Temperature Sensor 1'', ev_value = to_double (3201 / 100),
                ev_status = ''high'', ev_time = 1000\<rparr>]"
  let ?replay = "[AllSensors
             [\<lparr>s_id = 2, s_name = ''b'', s_value = 1, s_unit = None, updated_at = 2000000\<rparr>,
              \<lparr>s_id = 3, s_name = ''B'', s_value = 2, s_unit = None, updated_at = 3000000\<rparr>,
              \<lparr>s_id = 4, s_name = ''Humidity Sensor 1'', s_value = 20, s_unit = None,
                updated_at = 4000000\<rparr>,
              temp_row (to_double (3201 / 100)) 1000000], ?alerts]"
  have fresh: "inbox ?y 7 = None"
    by (rule replay_inbox)
  have ok: "\<not> fail_all_sensors ?ce" "\<not> fail_all_alerts ?ce"
    by (simp_all add: conn_ok_def)
  have sent: "inbox (step ?y (Connect 7 ?ce)) 7 = Some ?replay"
    by (simp add: replay_inbox replay_db on_connection_def conn_ok_def getLatestSensors_def
          order_by_triggered_at_desc_def alert_payload_def temp_row_def temp_alert_def
          caseless_key_def toLowerCase_def lower_char_def to_double_idem)
  have bytes: "inbox (step ?y (Connect 7 (conn_ok (\<lambda>n. n)))) 7 =
     Some [AllSensors
             [\<lparr>s_id = 3, s_name = ''B'', s_value = 2, s_unit = None, updated_at = 3000000\<rparr>,
              \<lparr>s_id = 4, s_name = ''Humidity Sensor 1'', s_value = 20, s_unit = None,
                updated_at = 4000000\<rparr>,
              temp_row (to_double (3201 / 100)) 1000000,
              \<lparr>s_id = 2, s_name = ''b'', s_value = 1, s_unit = None, updated_at = 2000000\<rparr>],
           ?alerts]"
    by (simp add: replay_inbox replay_db on_connection_def conn_ok_def getLatestSensors_def
          order_by_triggered_at_desc_def alert_payload_def temp_row_def temp_alert_def
          to_double_idem)
  have quiet: "\<forall>x \<in> set ?later. \<not> touches_socket 7 x"
    by simp
  let ?pay = "\<lambda>a. \<lparr>ev_sensor = a_sensor_name a, ev_value = to_double (a_value a),
                    ev_status = a_status a, ev_time = triggered_at a div 1000\<rparr>"
  from connect_replay [OF fresh ok] obtain rows srt where
    every: "inbox (step ?y (Connect 7 ?ce)) 7 =
          Some [AllSensors rows, AllAlerts (map ?pay (take 50 srt))] \<and>
      mset rows = mset (sensors (sys_db ?y)) \<and>
      distinct (map s_name rows) \<and>
      sorted_wrt (\<lambda>a b. collation_key ?ce (s_name a) < collation_key ?ce (s_name b) \<or>
                         (collation_key ?ce (s_name a) = collation_key ?ce (s_name b) \<and>
                          s_name a \<le> s_name b)) rows \<and>
      mset srt = mset (alerts (sys_db ?y)) \<and>
      sorted_wrt (\<lambda>a b. triggered_at a \<ge> triggered_at b) srt \<and>
      (\<forall>ops'. (\<forall>x \<in> set ops'. \<not> touches_socket 7 x) \<longrightarrow>
        (\<exists>ds. inbox (run (step ?y (Connect 7 ?ce)) ops') 7 =
             Some ([AllSensors rows, AllAlerts (map ?pay (take 50 srt))] @ ds) \<and>
           (\<forall>e \<in> set ds. is_delta e)))"
    by (elim exE)
  note r = every [THEN conjunct1]
  note l = every [THEN conjunct2, THEN conjunct2, THEN conjunct2, THEN conjunct2,
      THEN conjunct2, THEN conjunct2]
  from r sent have same: "[AllSensors rows, AllAlerts (map ?pay (take 50 srt))] = ?replay"
    by simp
  from l [THEN spec, THEN mp, OF quiet] obtain ds where
    d: "inbox (run (step ?y (Connect 7 ?ce)) ?later) 7 =
       Some ([AllSensors rows, AllAlerts (map ?pay (take 50 srt))] @ ds) \<and>
      (\<forall>e \<in> set ds. is_delta e)"
    by (elim exE)
  then have "inbox (run (step ?y (Connect 7 ?ce)) ?later) 7 = Some (?replay @ ds) \<and>
      list_all is_delta ds"
    unfolding same by (simp add: list_all_iff)
  then have "\<exists>ds. inbox (run (step ?y (Connect 7 ?ce)) ?later) 7 = Some (?replay @ ds) \<and>
      list_all is_delta ds"
    by (rule exI)
  with fresh sent bytes show ?thesis
    by blast
qed

section \<open>The synthetic generator's next value\<close>




section \<open>The sensor category\<close>

text \<open>
  Claim C10. The category behind \<open>minDelta\<close> is found by looking for a keyword anywhere
  in the lower-cased name, \<open>temp\<close> first, then \<open>humid\<close>, then \<open>co2\<close>, then \<open>light\<close>; the
  first keyword found decides, so \<open>CO2/Temp Combo\<close> is a temperature sensor. Names with
  the same lower-case form get the same category. A name with none of the keywords, the
  empty and the missing name among them, is \<open>other\<close>, and its \<open>minDelta\<close> is 1.
\<close>

theorem kindFromName_priority:
  "(sublist ''temp'' (toLowerCase n) \<longrightarrow> kindFromName (Some n) = ''temperature'') \<and>
   (\<not> sublist ''temp'' (toLowerCase n) \<and> sublist ''humid'' (toLowerCase n) \<longrightarrow>
      kindFromName (Some n) = ''humidity'') \<and>
   (\<not> sublist ''temp'' (toLowerCase n) \<and> \<not> sublist ''humid'' (toLowerCase n) \<and>
    sublist ''co2'' (toLowerCase n) \<longrightarrow> kindFromName (Some n) = ''co2'') \<and>
   (\<not> sublist ''temp'' (toLowerCase n) \<and> \<not> sublist ''humid'' (toLowerCase n) \<and>
    \<not> sublist ''co2'' (toLowerCase n) \<and> sublist ''light'' (toLowerCase n) \<longrightarrow>
      kindFromName (Some n) = ''light'') \<and>
   (\<not> sublist ''temp'' (toLowerCase n) \<and> \<not> sublist ''humid'' (toLowerCase n) \<and>
    \<not> sublist ''co2'' (toLowerCase n) \<and> \<not> sublist ''light'' (toLowerCase n) \<longrightarrow>
      kindFromName (Some n) = ''other'' \<and> minDelta n = 1) \<and>
   (toLowerCase n = toLowerCase n' \<longrightarrow> kindFromName (Some n) = kindFromName (Some n')) \<and>
   kindFromName (Some ''CO2/Temp Combo'') = ''temperature'' \<and>
   minDelta ''CO2/Temp Combo'' = 1 / 2 \<and>
   kindFromName (Some []) = ''other'' \<and>
   kindFromName None = ''other'' \<and>
   minDelta [] = 1"
proof -
  have other: "kindFromName (Some n) = ''other'' \<and> minDelta n = 1"
    if "\<not> sublist ''temp'' (toLowerCase n) \<and> \<not> sublist ''humid'' (toLowerCase n) \<and>
        \<not> sublist ''co2'' (toLowerCase n) \<and> \<not> sublist ''light'' (toLowerCase n)"
  proof -
    from that have "kindFromName (Some n) = ''other''"
      by (simp add: kindFromName_def str_includes_sublist)
    then show ?thesis
      by (simp add: minDelta_other)
  qed
  have same: "kindFromName (Some n) = kindFromName (Some n')" if "toLowerCase n = toLowerCase n'"
    using that by (simp add: kindFromName_def)
  have combo: "kindFromName (Some ''CO2/Temp Combo'') = ''temperature''"
    by (simp add: kindFromName_def toLowerCase_def lower_char_def)
  then have combo_delta: "minDelta ''CO2/Temp Combo'' = 1 / 2"
    by (simp add: minDelta_def ALERT_MIN_DELTA_def)
  have empty: "kindFromName (Some []) = ''other''" "kindFromName None = ''other''"
    by (simp_all add: kindFromName_def toLowerCase_def)
  then have empty_delta: "minDelta [] = 1"
    by (simp add: minDelta_other)
  have first: "sublist ''temp'' (toLowerCase n) \<longrightarrow> kindFromName (Some n) = ''temperature''"
    and second: "\<not> sublist ''temp'' (toLowerCase n) \<and> sublist ''humid'' (toLowerCase n) \<longrightarrow>
      kindFromName (Some n) = ''humidity''"
    and third: "\<not> sublist ''temp'' (toLowerCase n) \<and> \<not> sublist ''humid'' (toLowerCase n) \<and>
      sublist ''co2'' (toLowerCase n) \<longrightarrow> kindFromName (Some n) = ''co2''"
    and fourth: "\<not> sublist ''temp'' (toLowerCase n) \<and> \<not> sublist ''humid'' (toLowerCase n) \<and>
      \<not> sublist ''co2'' (toLowerCase n) \<and> sublist ''light'' (toLowerCase n) \<longrightarrow>
      kindFromName (Some n) = ''light''"
    by (simp_all add: kindFromName_def str_includes_sublist)
  from first second third fourth other same combo combo_delta empty empty_delta
  show ?thesis
    by blast
qed

theorem kindFromName_priority_witness:
  "sublist ''temp'' (toLowerCase ''CO2/Temp Combo'') \<and>
   sublist ''co2'' (toLowerCase ''CO2/Temp Combo'') \<and>
   kindFromName (Some ''CO2/Temp Combo'') = ''temperature'' \<and>
   \<not> sublist ''temp'' (toLowerCase ''Light in HUMID room'') \<and>
   sublist ''humid'' (toLowerCase ''Light in HUMID room'') \<and>
   sublist ''light'' (toLowerCase ''Light in HUMID room'') \<and>
   kindFromName (Some ''Light in HUMID room'') = ''humidity'' \<and>
   sublist ''co2'' (toLowerCase ''Light/CO2'') \<and>
   sublist ''light'' (toLowerCase ''Light/CO2'') \<and>
   kindFromName (Some ''Light/CO2'') = ''co2'' \<and>
   sublist ''light'' (toLowerCase ''Light Sensor 1'') \<and>
   kindFromName (Some ''Light Sensor 1'') = ''light'' \<and>
   toLowerCase ''LIGHT'' = toLowerCase ''light'' \<and>
   kindFromName (Some ''LIGHT'') = kindFromName (Some ''light'') \<and>
   kindFromName (Some ''Boiler'') = ''other'' \<and>
   minDelta ''Boiler'' = 1"
proof -
  have low: "toLowerCase ''CO2/Temp Combo'' = ''co2/temp combo''"
    "toLowerCase ''Light in HUMID room'' = ''light in humid room''"
    "toLowerCase ''Light/CO2'' = ''light/co2''"
    "toLowerCase ''Light Sensor 1'' = ''light sensor 1''"
    "toLowerCase ''LIGHT'' = ''light''" "toLowerCase ''light'' = ''light''"
    "toLowerCase ''Boiler'' = ''boiler''"
    by (simp_all add: toLowerCase_def lower_char_def)
  have a: "sublist ''temp'' (toLowerCase ''CO2/Temp Combo'')"
    "sublist ''co2'' (toLowerCase ''CO2/Temp Combo'')"
    unfolding low by (simp_all add: str_includes_sublist [symmetric])
  have b: "\<not> sublist ''temp'' (toLowerCase ''Light in HUMID room'')"
    "sublist ''humid'' (toLowerCase ''Light in HUMID room'')"
    "sublist ''light'' (toLowerCase ''Light in HUMID room'')"
    unfolding low by (simp_all add: str_includes_sublist [symmetric])
  have c: "\<not> sublist ''temp'' (toLowerCase ''Light/CO2'') \<and>
      \<not> sublist ''humid'' (toLowerCase ''Light/CO2'') \<and> sublist ''co2'' (toLowerCase ''Light/CO2'')"
    "sublist ''light'' (toLowerCase ''Light/CO2'')"
    unfolding low by (simp_all add: str_includes_sublist [symmetric])
  have d: "\<not> sublist ''temp'' (toLowerCase ''Light Sensor 1'') \<and>
      \<not> sublist ''humid'' (toLowerCase ''Light Sensor 1'') \<and>
      \<not> sublist ''co2'' (toLowerCase ''Light Sensor 1'') \<and>
      sublist ''light'' (toLowerCase ''Light Sensor 1'')"
    unfolding low by (simp add: str_includes_sublist [symmetric])
  have e: "\<not> sublist ''temp'' (toLowerCase ''Boiler'') \<and> \<not> sublist ''humid'' (toLowerCase ''Boiler'') \<and>
      \<not> sublist ''co2'' (toLowerCase ''Boiler'') \<and> \<not> sublist ''light'' (toLowerCase ''Boiler'')"
    unfolding low by (simp add: str_includes_sublist [symmetric])
  have f: "toLowerCase ''LIGHT'' = toLowerCase ''light''"
    unfolding low by simp
  note t1 = kindFromName_priority [where n = "''CO2/Temp Combo''", THEN conjunct1, rule_format, OF a(1)]
  note t2 = kindFromName_priority [where n = "''Light in HUMID room''", THEN conjunct2,
      THEN conjunct1, rule_format, OF conjI, OF b(1) b(2)]
  note t3 = kindFromName_priority [where n = "''Light/CO2''", THEN conjunct2, THEN conjunct2,
      THEN conjunct1, rule_format, OF c(1)]
  note t4 = kindFromName_priority [where n = "''Light Sensor 1''", THEN conjunct2, THEN conjunct2,
      THEN conjunct2, THEN conjunct1, rule_format, OF d]
  note t5 = kindFromName_priority [where n = "''Boiler''", THEN conjunct2, THEN conjunct2,
      THEN conjunct2, THEN conjunct2, THEN conjunct1, rule_format, OF e]
  note t6 = kindFromName_priority [where n = "''LIGHT''" and n' = "''light''", THEN conjunct2,
      THEN conjunct2, THEN conjunct2, THEN conjunct2, THEN conjunct2, THEN conjunct1,
      rule_format, OF f]
  show ?thesis
    using a b c d f t1 t2 t3 t4 t5 t6 by blast
qed

end
